theory Spec2Isabelle
  imports Complex_Main
begin

section \<open>The items service: data model\<close>

text \<open>
  The repository is an Express application over one SQLite table,
  \<^verbatim>\<open>items (id INTEGER PRIMARY KEY AUTOINCREMENT, name TEXT NOT NULL, description TEXT)\<close>.
  It holds two implementations of the router \<^verbatim>\<open>itemsRouter(db, options)\<close>: one written
  with promises and \<^verbatim>\<open>async\<close> functions (\<^verbatim>\<open>getAllItems\<close>, \<^verbatim>\<open>getItemById\<close>,
  \<^verbatim>\<open>createNewItem\<close>, \<^verbatim>\<open>updateItem\<close>, \<^verbatim>\<open>deleteItem\<close>, \<^verbatim>\<open>retryOperation\<close>) and one
  written with callbacks (\<^verbatim>\<open>router.get\<close>, \<^verbatim>\<open>router.post\<close> with \<^verbatim>\<open>performInsert\<close>,
  \<^verbatim>\<open>router.put\<close> with \<^verbatim>\<open>performUpdate\<close>, \<^verbatim>\<open>router.delete\<close> with \<^verbatim>\<open>performDelete\<close>).

  One request is handled at a time: a handler is a function from the world before the
  request to the response and the world after it. Console output is not modelled.
\<close>

text \<open>
  A row of the table. \<open>None\<close> in \<open>item_description\<close> is SQL
  \<^verbatim>\<open>NULL\<close>.
\<close>

record item =
  item_id :: int
  item_name :: string
  item_description :: "string option"

text \<open>
  The table: its rows in rowid order (the order in which a scan without
  \<^verbatim>\<open>ORDER BY\<close> visits a rowid table) and the \<^verbatim>\<open>sqlite_sequence\<close> entry of
  \<^verbatim>\<open>AUTOINCREMENT\<close>, the largest id ever given out.
\<close>

record store =
  rows :: "item list"
  sqlite_sequence :: int

text \<open>
  An error object of the driver: \<^verbatim>\<open>err.code\<close> and
  \<^verbatim>\<open>err.message\<close>.
\<close>

record dberror =
  err_code :: string
  err_message :: string

text \<open>
  The statements the routers send, with their bound parameters:
  \<^item> \<open>SelectPage limit offset\<close>: \<^verbatim>\<open>SELECT * FROM items LIMIT ? OFFSET ?\<close>
  \<^item> \<open>SelectCount\<close>: \<^verbatim>\<open>SELECT COUNT(*) AS count FROM items\<close>
  \<^item> \<open>SelectById i\<close>: \<^verbatim>\<open>SELECT * FROM items WHERE id = ?\<close>
  \<^item> \<open>SelectByNameDescription n d\<close>:
    \<^verbatim>\<open>SELECT * FROM items WHERE name = ? AND description = ? ORDER BY id DESC LIMIT 1\<close>
  \<^item> \<open>InsertItem n d\<close>: \<^verbatim>\<open>INSERT INTO items (name, description) VALUES (?, ?)\<close>
  \<^item> \<open>UpdateItem n d i\<close>: \<^verbatim>\<open>UPDATE items SET name = ?, description = ? WHERE id = ?\<close>
  \<^item> \<open>DeleteItem i\<close>: \<^verbatim>\<open>DELETE FROM items WHERE id = ?\<close>

  A bound text parameter is \<open>Some s\<close>, a bound \<^verbatim>\<open>NULL\<close> is \<open>None\<close>.
\<close>

datatype stmt =
  SelectPage int int
  | SelectCount
  | SelectById int
  | SelectByNameDescription "string option" "string option"
  | InsertItem "string option" "string option"
  | UpdateItem "string option" "string option" int
  | DeleteItem int

text \<open>
  What a handler does to the outside, in order: \<open>Exec s\<close> is a call of \<^verbatim>\<open>db.all\<close>,
  \<^verbatim>\<open>db.get\<close> or \<^verbatim>\<open>db.run\<close> with statement \<open>s\<close>; \<open>Timeout ms\<close> is a
  \<^verbatim>\<open>setTimeout\<close> of \<open>ms\<close> milliseconds that the handler waits for.
\<close>

datatype event = Exec stmt | Timeout nat

text \<open>
  The world of a handler: the table, the outcomes the storage engine has in stock for
  the next calls (\<open>Some e\<close>: the call fails with \<open>e\<close> and changes nothing, \<open>None\<close>:
  the call goes through; once the list is used up every call goes through), and the
  events so far.
\<close>

record world =
  db :: store
  faults :: "dberror option list"
  trace :: "event list"

subsection \<open>The statements on the table\<close>

definition SQLITE_BUSY :: dberror where
  "SQLITE_BUSY = \<lparr>err_code = ''SQLITE_BUSY'', err_message = ''SQLITE_BUSY: database is locked''\<rparr>"

definition SQLITE_CONSTRAINT :: dberror where
  "SQLITE_CONSTRAINT =
     \<lparr>err_code = ''SQLITE_CONSTRAINT'',
      err_message = ''SQLITE_CONSTRAINT: NOT NULL constraint failed: items.name''\<rparr>"

text \<open>
  \<^verbatim>\<open>LIMIT ? OFFSET ?\<close>: a negative offset skips nothing, a negative limit is no limit.
\<close>

definition select_page :: "int \<Rightarrow> int \<Rightarrow> store \<Rightarrow> item list" where
  "select_page limit offset s =
     (let rest = drop (nat offset) (rows s)
      in if limit < 0 then rest else take (nat limit) rest)"

definition select_count :: "store \<Rightarrow> int" where
  "select_count s = int (length (rows s))"

definition select_by_id :: "int \<Rightarrow> store \<Rightarrow> item option" where
  "select_by_id i s = find (\<lambda>r. item_id r = i) (rows s)"

text \<open>
  \<^verbatim>\<open>name = ? AND description = ?\<close>: a comparison with \<^verbatim>\<open>NULL\<close> is never true,
  whether the \<^verbatim>\<open>NULL\<close> is the parameter or the column.
\<close>

definition name_description_match :: "string option \<Rightarrow> string option \<Rightarrow> item \<Rightarrow> bool" where
  "name_description_match n d r =
     (case n of
        None \<Rightarrow> False
      | Some n' \<Rightarrow>
          (case d of
             None \<Rightarrow> False
           | Some d' \<Rightarrow> item_name r = n' \<and> item_description r = Some d'))"

text \<open>
  \<^verbatim>\<open>ORDER BY id DESC LIMIT 1\<close>: the row of the largest id, if there
  is a row.
\<close>

fun greatest_id :: "item list \<Rightarrow> item option" where
  "greatest_id [] = None"
| "greatest_id (r # rs) =
     (case greatest_id rs of
        None \<Rightarrow> Some r
      | Some m \<Rightarrow> if item_id r < item_id m then Some m else Some r)"

definition select_by_name_description ::
  "string option \<Rightarrow> string option \<Rightarrow> store \<Rightarrow> item option" where
  "select_by_name_description n d s = greatest_id (filter (name_description_match n d) (rows s))"

text \<open>
  \<^verbatim>\<open>INSERT\<close>: the new row gets the id after the largest one ever given out, and the
  statement reports it as \<^verbatim>\<open>this.lastID\<close>. A \<^verbatim>\<open>NULL\<close> name violates \<^verbatim>\<open>NOT NULL\<close>.
\<close>

definition insert_item :: "string option \<Rightarrow> string option \<Rightarrow> store \<Rightarrow> dberror + int \<times> store" where
  "insert_item n d s =
     (case n of
        None \<Rightarrow> Inl SQLITE_CONSTRAINT
      | Some n' \<Rightarrow>
          (let i = sqlite_sequence s + 1
           in Inr (i, \<lparr>rows = rows s @ [\<lparr>item_id = i, item_name = n', item_description = d\<rparr>],
                      sqlite_sequence = i\<rparr>)))"

text \<open>
  \<^verbatim>\<open>UPDATE\<close> and \<^verbatim>\<open>DELETE\<close> report the number
  of rows they touched as \<^verbatim>\<open>this.changes\<close>.
\<close>

definition update_item ::
  "string option \<Rightarrow> string option \<Rightarrow> int \<Rightarrow> store \<Rightarrow> dberror + nat \<times> store" where
  "update_item n d i s =
     (let hit = filter (\<lambda>r. item_id r = i) (rows s)
      in case n of
           None \<Rightarrow> if hit = [] then Inr (0, s) else Inl SQLITE_CONSTRAINT
         | Some n' \<Rightarrow>
             Inr (length hit,
                  s\<lparr>rows := map (\<lambda>r. if item_id r = i
                                       then r\<lparr>item_name := n', item_description := d\<rparr>
                                       else r) (rows s)\<rparr>))"

definition delete_item :: "int \<Rightarrow> store \<Rightarrow> dberror + nat \<times> store" where
  "delete_item i s =
     Inr (length (filter (\<lambda>r. item_id r = i) (rows s)),
          s\<lparr>rows := filter (\<lambda>r. item_id r \<noteq> i) (rows s)\<rparr>)"

text \<open>A read as a statement that leaves the table as it is.\<close>

definition reading :: "(store \<Rightarrow> 'a) \<Rightarrow> store \<Rightarrow> dberror + 'a \<times> store" where
  "reading f s = Inr (f s, s)"

subsection \<open>The driver\<close>

text \<open>
  One call of the driver with statement \<open>q\<close>, whose effect on the table is \<open>sem\<close>:
  the call is recorded, the next outcome in stock is taken, and either the error is
  handed to the callback or the statement runs.
\<close>

definition db_call ::
  "stmt \<Rightarrow> (store \<Rightarrow> dberror + 'a \<times> store) \<Rightarrow> world \<Rightarrow> (dberror + 'a) \<times> world" where
  "db_call q sem w =
     (let w1 = w\<lparr>trace := trace w @ [Exec q], faults := tl (faults w)\<rparr>
      in case faults w of
           Some e # _ \<Rightarrow> (Inl e, w1)
         | _ \<Rightarrow>
             (case sem (db w) of
                Inl e \<Rightarrow> (Inl e, w1)
              | Inr (v, s) \<Rightarrow> (Inr v, w1\<lparr>db := s\<rparr>)))"

definition db_all_page :: "int \<Rightarrow> int \<Rightarrow> world \<Rightarrow> (dberror + item list) \<times> world" where
  "db_all_page limit offset = db_call (SelectPage limit offset) (reading (select_page limit offset))"

definition db_get_count :: "world \<Rightarrow> (dberror + int) \<times> world" where
  "db_get_count = db_call SelectCount (reading select_count)"

definition db_get_by_id :: "int \<Rightarrow> world \<Rightarrow> (dberror + item option) \<times> world" where
  "db_get_by_id i = db_call (SelectById i) (reading (select_by_id i))"

definition db_get_by_name_description ::
  "string option \<Rightarrow> string option \<Rightarrow> world \<Rightarrow> (dberror + item option) \<times> world" where
  "db_get_by_name_description n d =
     db_call (SelectByNameDescription n d) (reading (select_by_name_description n d))"

definition db_run_insert ::
  "string option \<Rightarrow> string option \<Rightarrow> world \<Rightarrow> (dberror + int) \<times> world" where
  "db_run_insert n d = db_call (InsertItem n d) (insert_item n d)"

definition db_run_update ::
  "string option \<Rightarrow> string option \<Rightarrow> int \<Rightarrow> world \<Rightarrow> (dberror + nat) \<times> world" where
  "db_run_update n d i = db_call (UpdateItem n d i) (update_item n d i)"

definition db_run_delete :: "int \<Rightarrow> world \<Rightarrow> (dberror + nat) \<times> world" where
  "db_run_delete i = db_call (DeleteItem i) (delete_item i)"

text \<open>
  \<^verbatim>\<open>promisify(db.run)\<close> resolves with the callback's second argument, which
  \<^verbatim>\<open>db.run\<close> never passes: the promise router sees neither \<^verbatim>\<open>lastID\<close> nor
  \<^verbatim>\<open>changes\<close>.
\<close>

definition dbRun :: "(world \<Rightarrow> (dberror + 'a) \<times> world) \<Rightarrow> world \<Rightarrow> (dberror + unit) \<times> world" where
  "dbRun run w = (case run w of (Inl e, w1) \<Rightarrow> (Inl e, w1) | (Inr _, w1) \<Rightarrow> (Inr (), w1))"

definition setTimeout :: "nat \<Rightarrow> world \<Rightarrow> world" where
  "setTimeout ms w = w\<lparr>trace := trace w @ [Timeout ms]\<rparr>"

section \<open>Requests, responses and options\<close>

text \<open>
  A value of the JSON body as the handlers use it: a missing field is
  \<^verbatim>\<open>undefined\<close>, and the fields of an item are texts or \<^verbatim>\<open>null\<close>.
\<close>

datatype jsval = Undefined | Null | Str string

text \<open>
  \<^verbatim>\<open>!name\<close> is true for \<^verbatim>\<open>undefined\<close>,
  \<^verbatim>\<open>null\<close> and the empty string.
\<close>

fun truthy :: "jsval \<Rightarrow> bool" where
  "truthy Undefined = False"
| "truthy Null = False"
| "truthy (Str s) = (s \<noteq> [])"

text \<open>
  Binding a value to a \<^verbatim>\<open>?\<close>: \<^verbatim>\<open>undefined\<close>
  and \<^verbatim>\<open>null\<close> both arrive as \<^verbatim>\<open>NULL\<close>.
\<close>

fun bind_param :: "jsval \<Rightarrow> string option" where
  "bind_param Undefined = None"
| "bind_param Null = None"
| "bind_param (Str s) = Some s"

text \<open>
  The request \<^verbatim>\<open>req\<close>. \<open>query_page\<close> and \<open>query_limit\<close> are \<^verbatim>\<open>parseInt(req.query.page)\<close>
  and \<^verbatim>\<open>parseInt(req.query.limit)\<close>, with \<open>None\<close> for \<^verbatim>\<open>NaN\<close> (a missing parameter or
  one that starts with no number). \<open>params_id\<close> is the integer that the text
  \<^verbatim>\<open>req.params.id\<close> denotes when SQLite compares it with the integer column \<^verbatim>\<open>id\<close>
  (a text that denotes no integer matches no row, as an integer that no row has).
\<close>

record request =
  query_page :: "int option"
  query_limit :: "int option"
  params_id :: int
  body_name :: jsval
  body_description :: jsval

record pagination =
  totalItems :: int
  totalPages :: int
  currentPage :: int
  pageSize :: int

text \<open>
  What \<^verbatim>\<open>res.json\<close> is given: a row, \<^verbatim>\<open>undefined\<close> (when a \<^verbatim>\<open>SELECT\<close> found no
  row), \<^verbatim>\<open>{ error: ... }\<close>, \<^verbatim>\<open>{ message: ... }\<close>, or \<^verbatim>\<open>{ items: ..., pagination: ... }\<close>.
\<close>

datatype body =
  JsonItem item
  | JsonUndefined
  | JsonError string
  | JsonMessage string
  | JsonPage "item list" pagination

record response =
  status :: nat
  body :: body

definition res_status_json :: "nat \<Rightarrow> body \<Rightarrow> response" where
  "res_status_json code b = \<lparr>status = code, body = b\<rparr>"

definition res_json :: "body \<Rightarrow> response" where
  "res_json b = res_status_json 200 b"

fun json_row :: "item option \<Rightarrow> body" where
  "json_row None = JsonUndefined"
| "json_row (Some r) = JsonItem r"

text \<open>
  The \<^verbatim>\<open>options\<close> object of \<^verbatim>\<open>itemsRouter\<close>;
  \<open>None\<close> is a field left out.
\<close>

record options =
  retryOnBusy :: "bool option"
  opt_maxRetries :: "nat option"
  opt_retryDelay :: "nat option"

text \<open>
  \<^verbatim>\<open>x || d\<close> on numbers: \<^verbatim>\<open>undefined\<close>,
  \<^verbatim>\<open>NaN\<close> and \<^verbatim>\<open>0\<close> give the default.
\<close>

definition or_default :: "'a::zero option \<Rightarrow> 'a \<Rightarrow> 'a" where
  "or_default x d = (case x of None \<Rightarrow> d | Some v \<Rightarrow> if v = 0 then d else v)"

definition shouldRetry :: "options \<Rightarrow> bool" where
  "shouldRetry opts = (case retryOnBusy opts of None \<Rightarrow> False | Some b \<Rightarrow> b)"

definition maxRetries :: "options \<Rightarrow> nat" where
  "maxRetries opts = or_default (opt_maxRetries opts) 3"

definition retryDelay :: "options \<Rightarrow> nat" where
  "retryDelay opts = or_default (opt_retryDelay opts) 100"

text \<open>
  \<^verbatim>\<open>Math.ceil(totalItems / limit)\<close>, for a limit that is not zero.
\<close>

definition math_ceil_div :: "int \<Rightarrow> int \<Rightarrow> int" where
  "math_ceil_div a b = - ((- a) div b)"

section \<open>The promise router\<close>

function retryOperation ::
  "options \<Rightarrow> (world \<Rightarrow> (dberror + 'a) \<times> world) \<Rightarrow> nat \<Rightarrow> world \<Rightarrow> (dberror + 'a) \<times> world" where
  "retryOperation opts operation retries w =
     (case operation w of
        (Inr v, w1) \<Rightarrow> (Inr v, w1)
      | (Inl err, w1) \<Rightarrow>
          if shouldRetry opts \<and> err_code err = ''SQLITE_BUSY'' \<and> retries > 0
          then retryOperation opts operation (retries - 1) (setTimeout (retryDelay opts) w1)
          else (Inl err, w1))"
  by pat_completeness auto
termination
  by (relation "measure (\<lambda>(opts, operation, retries, w). retries)") auto

definition getAllItems :: "request \<Rightarrow> world \<Rightarrow> response \<times> world" where
  "getAllItems req w =
     (let page = or_default (query_page req) 1;
          limit = or_default (query_limit req) 10;
          offset = (page - 1) * limit
      in case db_all_page limit offset w of
           (Inl err, w1) \<Rightarrow> (res_status_json 500 (JsonError (err_message err)), w1)
         | (Inr rws, w1) \<Rightarrow>
             (case db_get_count w1 of
                (Inl err, w2) \<Rightarrow> (res_status_json 500 (JsonError (err_message err)), w2)
              | (Inr count, w2) \<Rightarrow>
                  (res_json (JsonPage rws
                     \<lparr>totalItems = count, totalPages = math_ceil_div count limit,
                      currentPage = page, pageSize = limit\<rparr>), w2)))"

definition getItemById :: "request \<Rightarrow> world \<Rightarrow> response \<times> world" where
  "getItemById req w =
     (case db_get_by_id (params_id req) w of
        (Inl err, w1) \<Rightarrow> (res_status_json 500 (JsonError (err_message err)), w1)
      | (Inr None, w1) \<Rightarrow> (res_status_json 404 (JsonError ''Item not found''), w1)
      | (Inr (Some r), w1) \<Rightarrow> (res_json (JsonItem r), w1))"

definition createNewItem :: "options \<Rightarrow> request \<Rightarrow> world \<Rightarrow> response \<times> world" where
  "createNewItem opts req w =
     (let name = body_name req; description = body_description req
      in if \<not> truthy name then (res_status_json 400 (JsonError ''Name is required''), w)
         else
           (case retryOperation opts
                   (dbRun (db_run_insert (bind_param name) (bind_param description)))
                   (maxRetries opts) w of
              (Inl err, w1) \<Rightarrow> (res_status_json 500 (JsonError (err_message err)), w1)
            | (Inr _, w1) \<Rightarrow>
                (case db_get_by_name_description (bind_param name) (bind_param description) w1 of
                   (Inl err, w2) \<Rightarrow> (res_status_json 500 (JsonError (err_message err)), w2)
                 | (Inr row, w2) \<Rightarrow> (res_json (json_row row), w2))))"

definition updateItem :: "options \<Rightarrow> request \<Rightarrow> world \<Rightarrow> response \<times> world" where
  "updateItem opts req w =
     (let name = body_name req; description = body_description req
      in if \<not> truthy name then (res_status_json 400 (JsonError ''Name is required''), w)
         else
           (case retryOperation opts
                   (dbRun (db_run_update (bind_param name) (bind_param description) (params_id req)))
                   (maxRetries opts) w of
              (Inl err, w1) \<Rightarrow> (res_status_json 500 (JsonError (err_message err)), w1)
            | (Inr _, w1) \<Rightarrow>
                (case db_get_by_id (params_id req) w1 of
                   (Inl err, w2) \<Rightarrow> (res_status_json 500 (JsonError (err_message err)), w2)
                 | (Inr None, w2) \<Rightarrow> (res_status_json 404 (JsonError ''Item not found''), w2)
                 | (Inr (Some r), w2) \<Rightarrow> (res_json (JsonItem r), w2))))"

definition deleteItem :: "options \<Rightarrow> request \<Rightarrow> world \<Rightarrow> response \<times> world" where
  "deleteItem opts req w =
     (case retryOperation opts (dbRun (db_run_delete (params_id req))) (maxRetries opts) w of
        (Inl err, w1) \<Rightarrow> (res_status_json 500 (JsonError (err_message err)), w1)
      | (Inr _, w1) \<Rightarrow>
          (case db_get_by_id (params_id req) w1 of
             (Inl err, w2) \<Rightarrow> (res_status_json 500 (JsonError (err_message err)), w2)
           | (Inr (Some r), w2) \<Rightarrow> (res_status_json 404 (JsonError ''Item not found''), w2)
           | (Inr None, w2) \<Rightarrow> (res_json (JsonMessage ''Item deleted''), w2)))"

section \<open>The callback router\<close>

definition router_get_all :: "request \<Rightarrow> world \<Rightarrow> response \<times> world" where
  "router_get_all req w =
     (let page = or_default (query_page req) 1;
          limit = or_default (query_limit req) 10;
          offset = (page - 1) * limit
      in case db_all_page limit offset w of
           (Inl err, w1) \<Rightarrow> (res_status_json 500 (JsonError (err_message err)), w1)
         | (Inr rws, w1) \<Rightarrow>
             (case db_get_count w1 of
                (Inl err, w2) \<Rightarrow> (res_status_json 500 (JsonError (err_message err)), w2)
              | (Inr count, w2) \<Rightarrow>
                  (res_json (JsonPage rws
                     \<lparr>totalItems = count, totalPages = math_ceil_div count limit,
                      currentPage = page, pageSize = limit\<rparr>), w2)))"

definition router_get_id :: "request \<Rightarrow> world \<Rightarrow> response \<times> world" where
  "router_get_id req w =
     (case db_get_by_id (params_id req) w of
        (Inl err, w1) \<Rightarrow> (res_status_json 500 (JsonError (err_message err)), w1)
      | (Inr None, w1) \<Rightarrow> (res_status_json 404 (JsonError ''Item not found''), w1)
      | (Inr (Some r), w1) \<Rightarrow> (res_json (JsonItem r), w1))"

function performInsert :: "options \<Rightarrow> jsval \<Rightarrow> jsval \<Rightarrow> nat \<Rightarrow> world \<Rightarrow> response \<times> world" where
  "performInsert opts name description retries w =
     (case db_run_insert (bind_param name) (bind_param description) w of
        (Inl err, w1) \<Rightarrow>
          if shouldRetry opts \<and> err_code err = ''SQLITE_BUSY'' \<and> retries > 0
          then performInsert opts name description (retries - 1) (setTimeout (retryDelay opts) w1)
          else (res_status_json 500 (JsonError (err_message err)), w1)
      | (Inr lastID, w1) \<Rightarrow>
          (case db_get_by_id lastID w1 of
             (Inl err, w2) \<Rightarrow> (res_status_json 500 (JsonError (err_message err)), w2)
           | (Inr row, w2) \<Rightarrow> (res_json (json_row row), w2)))"
  by pat_completeness auto
termination
  by (relation "measure (\<lambda>(opts, name, description, retries, w). retries)") auto

definition router_post :: "options \<Rightarrow> request \<Rightarrow> world \<Rightarrow> response \<times> world" where
  "router_post opts req w =
     (let name = body_name req; description = body_description req
      in if \<not> truthy name then (res_status_json 400 (JsonError ''Name is required''), w)
         else performInsert opts name description (maxRetries opts) w)"

function performUpdate ::
  "options \<Rightarrow> jsval \<Rightarrow> jsval \<Rightarrow> int \<Rightarrow> nat \<Rightarrow> world \<Rightarrow> response \<times> world" where
  "performUpdate opts name description i retries w =
     (case db_run_update (bind_param name) (bind_param description) i w of
        (Inl err, w1) \<Rightarrow>
          if shouldRetry opts \<and> err_code err = ''SQLITE_BUSY'' \<and> retries > 0
          then performUpdate opts name description i (retries - 1) (setTimeout (retryDelay opts) w1)
          else (res_status_json 500 (JsonError (err_message err)), w1)
      | (Inr changes, w1) \<Rightarrow>
          if changes = 0 then (res_status_json 404 (JsonError ''Item not found''), w1)
          else
            (case db_get_by_id i w1 of
               (Inl err, w2) \<Rightarrow> (res_status_json 500 (JsonError (err_message err)), w2)
             | (Inr row, w2) \<Rightarrow> (res_json (json_row row), w2)))"
  by pat_completeness auto
termination
  by (relation "measure (\<lambda>(opts, name, description, i, retries, w). retries)") auto

definition router_put :: "options \<Rightarrow> request \<Rightarrow> world \<Rightarrow> response \<times> world" where
  "router_put opts req w =
     (let name = body_name req; description = body_description req
      in if \<not> truthy name then (res_status_json 400 (JsonError ''Name is required''), w)
         else performUpdate opts name description (params_id req) (maxRetries opts) w)"

function performDelete :: "options \<Rightarrow> int \<Rightarrow> nat \<Rightarrow> world \<Rightarrow> response \<times> world" where
  "performDelete opts i retries w =
     (case db_run_delete i w of
        (Inl err, w1) \<Rightarrow>
          if shouldRetry opts \<and> err_code err = ''SQLITE_BUSY'' \<and> retries > 0
          then performDelete opts i (retries - 1) (setTimeout (retryDelay opts) w1)
          else (res_status_json 500 (JsonError (err_message err)), w1)
      | (Inr changes, w1) \<Rightarrow>
          if changes = 0 then (res_status_json 404 (JsonError ''Item not found''), w1)
          else (res_json (JsonMessage ''Item deleted''), w1))"
  by pat_completeness auto
termination
  by (relation "measure (\<lambda>(opts, i, retries, w). retries)") auto

definition router_delete :: "options \<Rightarrow> request \<Rightarrow> world \<Rightarrow> response \<times> world" where
  "router_delete opts req w = performDelete opts (params_id req) (maxRetries opts) w"

section \<open>Routing and sequences of requests\<close>

text \<open>
  The five routes both routers register: \<^verbatim>\<open>GET /\<close>, \<^verbatim>\<open>GET /:id\<close>, \<^verbatim>\<open>POST /\<close>,
  \<^verbatim>\<open>PUT /:id\<close> and \<^verbatim>\<open>DELETE /:id\<close>.
\<close>

datatype route = GET_all | GET_id | POST | PUT_id | DELETE_id

fun itemsRouter_promise :: "options \<Rightarrow> route \<times> request \<Rightarrow> world \<Rightarrow> response \<times> world" where
  "itemsRouter_promise opts (GET_all, req) = getAllItems req"
| "itemsRouter_promise opts (GET_id, req) = getItemById req"
| "itemsRouter_promise opts (POST, req) = createNewItem opts req"
| "itemsRouter_promise opts (PUT_id, req) = updateItem opts req"
| "itemsRouter_promise opts (DELETE_id, req) = deleteItem opts req"

fun itemsRouter_callback :: "options \<Rightarrow> route \<times> request \<Rightarrow> world \<Rightarrow> response \<times> world" where
  "itemsRouter_callback opts (GET_all, req) = router_get_all req"
| "itemsRouter_callback opts (GET_id, req) = router_get_id req"
| "itemsRouter_callback opts (POST, req) = router_post opts req"
| "itemsRouter_callback opts (PUT_id, req) = router_put opts req"
| "itemsRouter_callback opts (DELETE_id, req) = router_delete opts req"

text \<open>
  Requests served one after the other: the responses in order, and the world at the end.
\<close>

fun serve ::
  "('r \<Rightarrow> world \<Rightarrow> response \<times> world) \<Rightarrow> 'r list \<Rightarrow> world \<Rightarrow> response list \<times> world" where
  "serve handler [] w = ([], w)"
| "serve handler (r # rs) w =
     (case handler r w of
        (res, w1) \<Rightarrow> (case serve handler rs w1 of (ress, w2) \<Rightarrow> (res # ress, w2)))"

section \<open>Storage initialization\<close>

text \<open>
  The database file as \<^verbatim>\<open>createDatabase\<close> sees it: the tables of its schema, each
  with its column definitions, and the settings the \<^verbatim>\<open>PRAGMA\<close> statements leave.
\<close>

record column =
  col_name :: string
  col_type :: string
  col_constraint :: string

record dbfile =
  tables :: "(string \<times> column list) list"
  pragmas :: "string \<rightharpoonup> string"

definition items_columns :: "column list" where
  "items_columns =
     [\<lparr>col_name = ''id'', col_type = ''INTEGER'', col_constraint = ''PRIMARY KEY AUTOINCREMENT''\<rparr>,
      \<lparr>col_name = ''name'', col_type = ''TEXT'', col_constraint = ''NOT NULL''\<rparr>,
      \<lparr>col_name = ''description'', col_type = ''TEXT'', col_constraint = []\<rparr>]"

text \<open>
  \<^verbatim>\<open>CREATE TABLE [IF NOT EXISTS] name (columns)\<close>: a table of that name in the
  schema is an error without \<^verbatim>\<open>IF NOT EXISTS\<close> and is left alone with it.
\<close>

definition create_table ::
  "bool \<Rightarrow> string \<Rightarrow> column list \<Rightarrow> dbfile \<Rightarrow> dberror + dbfile" where
  "create_table if_not_exists name cols f =
     (if name \<in> set (map fst (tables f))
      then (if if_not_exists then Inr f
            else Inl \<lparr>err_code = ''SQLITE_ERROR'',
                      err_message = ''SQLITE_ERROR: table '' @ name @ '' already exists''\<rparr>)
      else Inr (f\<lparr>tables := tables f @ [(name, cols)]\<rparr>))"

definition set_pragma :: "string \<Rightarrow> string \<Rightarrow> dbfile \<Rightarrow> dberror + dbfile" where
  "set_pragma k v f = Inr (f\<lparr>pragmas := (pragmas f)(k \<mapsto> v)\<rparr>)"

text \<open>
  The state of a start of the process: the file and the outcomes the storage engine has
  in stock for the next calls, as in \<open>world\<close>.
\<close>

record startup =
  database :: dbfile
  pending :: "dberror option list"

text \<open>
  \<^verbatim>\<open>runQuery(db, query)\<close>: the promise of one
  \<^verbatim>\<open>db.run\<close>.
\<close>

definition runQuery :: "(dbfile \<Rightarrow> dberror + dbfile) \<Rightarrow> startup \<Rightarrow> (dberror + unit) \<times> startup" where
  "runQuery query st =
     (let st1 = st\<lparr>pending := tl (pending st)\<rparr>
      in case pending st of
           Some e # _ \<Rightarrow> (Inl e, st1)
         | _ \<Rightarrow>
             (case query (database st) of
                Inl e \<Rightarrow> (Inl e, st1)
              | Inr f \<Rightarrow> (Inr (), st1\<lparr>database := f\<rparr>)))"

text \<open>
  \<^verbatim>\<open>Promise.all\<close> over queries that were all started: every one runs, and the first
  rejection is the rejection of the whole.
\<close>

fun promise_all ::
  "(startup \<Rightarrow> (dberror + unit) \<times> startup) list \<Rightarrow> startup \<Rightarrow> (dberror + unit) \<times> startup" where
  "promise_all [] st = (Inr (), st)"
| "promise_all (q # qs) st =
     (case q st of
        (Inl e, st1) \<Rightarrow> (Inl e, snd (promise_all qs st1))
      | (Inr _, st1) \<Rightarrow> promise_all qs st1)"

text \<open>
  Opening the file with \<^verbatim>\<open>OPEN_READWRITE | OPEN_CREATE |
  OPEN_SHAREDCACHE\<close>.
\<close>

definition open_database :: "startup \<Rightarrow> (dberror + unit) \<times> startup" where
  "open_database st =
     (let st1 = st\<lparr>pending := tl (pending st)\<rparr>
      in case pending st of Some e # _ \<Rightarrow> (Inl e, st1) | _ \<Rightarrow> (Inr (), st1))"

text \<open>
  \<^verbatim>\<open>createDatabase\<close>: \<open>Inl 1\<close> is \<^verbatim>\<open>process.exit(1)\<close>, \<open>Inr\<close> the state in
  which the handle is returned.
\<close>

definition createDatabase :: "startup \<Rightarrow> nat + startup" where
  "createDatabase st =
     (case open_database st of
        (Inl err, st1) \<Rightarrow> Inl 1
      | (Inr _, st1) \<Rightarrow>
          (case promise_all
                  [runQuery (set_pragma ''journal_mode'' ''WAL''),
                   runQuery (set_pragma ''synchronous'' ''NORMAL''),
                   runQuery (set_pragma ''temp_store'' ''MEMORY''),
                   runQuery (set_pragma ''mmap_size'' ''30000000000'')] st1 of
             (Inl err, st2) \<Rightarrow> Inl 1
           | (Inr _, st2) \<Rightarrow>
               (case runQuery (create_table True ''items'' items_columns) st2 of
                  (Inl err, st3) \<Rightarrow> Inl 1
                | (Inr _, st3) \<Rightarrow> Inr st3)))"

section \<open>Notions used in the statements\<close>

text \<open>An outcome in stock that is the busy condition.\<close>

definition is_busy_fault :: "dberror option \<Rightarrow> bool" where
  "is_busy_fault x = (case x of None \<Rightarrow> False | Some e \<Rightarrow> err_code e = ''SQLITE_BUSY'')"

text \<open>
  The number of attempts the retry policy makes again with \<open>r\<close> retries left:
  the busy outcomes at the head of the stock, at most \<open>r\<close> of them, and none
  when retrying is off.
\<close>

definition retried :: "options \<Rightarrow> nat \<Rightarrow> dberror option list \<Rightarrow> nat" where
  "retried opts r fs = (if shouldRetry opts then length (takeWhile is_busy_fault (take r fs)) else 0)"

text \<open>
  The world after \<open>n\<close> attempts of statement \<open>q\<close> that were each
  refused and waited out.
\<close>

definition after_retries :: "options \<Rightarrow> stmt \<Rightarrow> nat \<Rightarrow> world \<Rightarrow> world" where
  "after_retries opts q n w =
     w\<lparr>faults := drop n (faults w),
       trace := trace w @ concat (replicate n [Exec q, Timeout (retryDelay opts)])\<rparr>"

text \<open>A statement whose result is dropped, as \<open>dbRun\<close> drops it.\<close>

definition discard :: "(store \<Rightarrow> dberror + 'a \<times> store) \<Rightarrow> store \<Rightarrow> dberror + unit \<times> store" where
  "discard sem s = (case sem s of Inl e \<Rightarrow> Inl e | Inr (v, s1) \<Rightarrow> Inr ((), s1))"

text \<open>
  The shape every table built by the statements has: ids strictly ascending in rowid order,
  none above the \<^verbatim>\<open>AUTOINCREMENT\<close> sequence.
\<close>

definition store_ok :: "store \<Rightarrow> bool" where
  "store_ok s =
     (sorted_wrt (<) (map item_id (rows s)) \<and>
      list_all (\<lambda>r. item_id r \<le> sqlite_sequence s) (rows s))"

text \<open>
  The table after the \<^verbatim>\<open>INSERT\<close> of a name and a description.
\<close>

definition inserted :: "string \<Rightarrow> string option \<Rightarrow> store \<Rightarrow> store" where
  "inserted n d s =
     \<lparr>rows = rows s @ [\<lparr>item_id = sqlite_sequence s + 1, item_name = n, item_description = d\<rparr>],
      sqlite_sequence = sqlite_sequence s + 1\<rparr>"

text \<open>
  The table after the \<^verbatim>\<open>UPDATE\<close> of the rows of id \<open>i\<close>.
\<close>

definition updated :: "string \<Rightarrow> string option \<Rightarrow> int \<Rightarrow> store \<Rightarrow> store" where
  "updated n d i s =
     s\<lparr>rows := map (\<lambda>r. if item_id r = i then r\<lparr>item_name := n, item_description := d\<rparr> else r)
                    (rows s)\<rparr>"

text \<open>
  The table after the \<^verbatim>\<open>DELETE\<close> of the rows of id \<open>i\<close>.
\<close>

definition deleted :: "int \<Rightarrow> store \<Rightarrow> store" where
  "deleted i s = s\<lparr>rows := filter (\<lambda>r. item_id r \<noteq> i) (rows s)\<rparr>"

text \<open>
  Values for the concrete cases: a fresh table, an engine that raises nothing, no option
  set.
\<close>

definition empty_world :: world where
  "empty_world = \<lparr>db = \<lparr>rows = [], sqlite_sequence = 0\<rparr>, faults = [], trace = []\<rparr>"

definition no_options :: options where
  "no_options = \<lparr>retryOnBusy = None, opt_maxRetries = None, opt_retryDelay = None\<rparr>"

definition item_request :: "int \<Rightarrow> jsval \<Rightarrow> jsval \<Rightarrow> request" where
  "item_request i n d =
     \<lparr>query_page = None, query_limit = None, params_id = i, body_name = n, body_description = d\<rparr>"

text \<open>
  Retrying switched on with the default budget and delay; an engine that is busy twice.
\<close>

definition retry_options :: options where
  "retry_options = \<lparr>retryOnBusy = Some True, opt_maxRetries = None, opt_retryDelay = None\<rparr>"

definition busy_twice :: world where
  "busy_twice = empty_world\<lparr>faults := [Some SQLITE_BUSY, Some SQLITE_BUSY]\<rparr>"



text \<open>A table of three rows, with ids 1, 2 and 4 (the row of id 3 was deleted).\<close>

definition three_rows :: world where
  "three_rows =
     \<lparr>db = \<lparr>rows = [\<lparr>item_id = 1, item_name = ''a'', item_description = Some ''x''\<rparr>,
                    \<lparr>item_id = 2, item_name = ''b'', item_description = None\<rparr>,
                    \<lparr>item_id = 4, item_name = ''c'', item_description = Some ''z''\<rparr>],
            sqlite_sequence = 4\<rparr>,
      faults = [], trace = []\<rparr>"


text \<open>A database file that was just created: no table, no setting.\<close>

definition fresh_file :: dbfile where
  "fresh_file = \<lparr>tables = [], pragmas = Map.empty\<rparr>"




section \<open>The driver and the retry loop\<close>

declare retryOperation.simps [simp del] performInsert.simps [simp del]
  performUpdate.simps [simp del] performDelete.simps [simp del]

lemma db_call_nofault:
  "faults w = [] \<Longrightarrow> db_call q sem w =
     (case sem (db w) of Inl e \<Rightarrow> (Inl e, w\<lparr>trace := trace w @ [Exec q]\<rparr>)
       | Inr (v, s) \<Rightarrow> (Inr v, w\<lparr>trace := trace w @ [Exec q], db := s\<rparr>))"
  by (cases w) (simp add: db_call_def split: sum.splits)

lemma db_call_fault:
  "faults w = Some e # fs \<Longrightarrow> db_call q sem w = (Inl e, w\<lparr>trace := trace w @ [Exec q], faults := fs\<rparr>)"
  by (simp add: db_call_def)

lemma db_call_pass:
  "faults w = None # fs \<Longrightarrow> db_call q sem w =
     (case sem (db w) of Inl e \<Rightarrow> (Inl e, w\<lparr>trace := trace w @ [Exec q], faults := fs\<rparr>)
       | Inr (v, s) \<Rightarrow> (Inr v, w\<lparr>trace := trace w @ [Exec q], faults := fs, db := s\<rparr>))"
  by (simp add: db_call_def split: sum.splits)

lemma after_retries_0: "after_retries opts q 0 w = w"
  by (simp add: after_retries_def)

lemma db_call_busy_is_fault:
  assumes sem: "\<And>s e. sem s = Inl e \<Longrightarrow> err_code e \<noteq> ''SQLITE_BUSY''"
    and res: "db_call q sem w = (Inl err, w1)" and busy: "err_code err = ''SQLITE_BUSY''"
  shows "\<exists>fs. faults w = Some err # fs"
proof (cases "faults w")
  case Nil
  with res busy sem show ?thesis
    by (auto simp: db_call_nofault split: sum.splits)
next
  case (Cons x fs)
  with res busy sem show ?thesis
    by (cases x) (auto simp: db_call_pass db_call_fault split: sum.splits)
qed

lemma retryOperation_stop:
  assumes sem: "\<And>s e. sem s = Inl e \<Longrightarrow> err_code e \<noteq> ''SQLITE_BUSY''"
    and stop: "\<not> (shouldRetry opts \<and> r > 0 \<and> (\<exists>x fs. faults w = x # fs \<and> is_busy_fault x))"
  shows "retryOperation opts (db_call q sem) r w = db_call q sem w"
proof (cases "db_call q sem w")
  case (Pair res w1)
  show ?thesis
  proof (cases res)
    case (Inr v)
    with Pair show ?thesis by (subst retryOperation.simps) simp
  next
    case (Inl err)
    have "\<not> (shouldRetry opts \<and> err_code err = ''SQLITE_BUSY'' \<and> r > 0)"
    proof
      assume a: "shouldRetry opts \<and> err_code err = ''SQLITE_BUSY'' \<and> r > 0"
      with db_call_busy_is_fault[where sem=sem and q=q and w=w and err=err and ?w1.0=w1] sem Pair Inl
      obtain fs where "faults w = Some err # fs" by auto
      with a stop show False by (auto simp: is_busy_fault_def)
    qed
    with Pair Inl show ?thesis by (subst retryOperation.simps) auto
  qed
qed

lemma retryOperation_go:
  assumes "shouldRetry opts" "faults w = Some e # fs" "err_code e = ''SQLITE_BUSY''"
  shows "retryOperation opts (db_call q sem) (Suc r) w =
         retryOperation opts (db_call q sem) r
           (setTimeout (retryDelay opts) (w\<lparr>trace := trace w @ [Exec q], faults := fs\<rparr>))"
  using assms by (subst retryOperation.simps) (simp add: db_call_fault)

lemma retryOperation_db_call:
  assumes sem: "\<And>s e. sem s = Inl e \<Longrightarrow> err_code e \<noteq> ''SQLITE_BUSY''"
  shows "retryOperation opts (db_call q sem) r w =
           db_call q sem (after_retries opts q (retried opts r (faults w)) w)"
proof (induction r arbitrary: w)
  case 0
  have "retried opts 0 (faults w) = 0" by (simp add: retried_def)
  then show ?case using retryOperation_stop[where sem=sem and opts=opts and r=0 and w=w and q=q] sem
    by (simp add: after_retries_0)
next
  case (Suc r)
  show ?case
  proof (cases "shouldRetry opts \<and> (\<exists>x fs. faults w = x # fs \<and> is_busy_fault x)")
    case False
    then have "retried opts (Suc r) (faults w) = 0"
      by (cases "faults w") (auto simp: retried_def)
    then show ?thesis using False retryOperation_stop[where sem=sem and opts=opts and r="Suc r" and w=w and q=q] sem
      by (simp add: after_retries_0)
  next
    case True
    then obtain e fs where fw: "faults w = Some e # fs" and busy: "err_code e = ''SQLITE_BUSY''"
      and sr: "shouldRetry opts"
      by (auto simp: is_busy_fault_def split: option.splits)
    let ?w1 = "setTimeout (retryDelay opts) (w\<lparr>trace := trace w @ [Exec q], faults := fs\<rparr>)"
    have "retryOperation opts (db_call q sem) (Suc r) w = retryOperation opts (db_call q sem) r ?w1"
      by (rule retryOperation_go[OF sr fw busy])
    also have "\<dots> = db_call q sem (after_retries opts q (retried opts r (faults ?w1)) ?w1)"
      by (rule Suc.IH)
    also have "after_retries opts q (retried opts r (faults ?w1)) ?w1 =
               after_retries opts q (retried opts (Suc r) (faults w)) w"
      using fw busy sr
      by (simp add: after_retries_def retried_def setTimeout_def is_busy_fault_def)
    finally show ?thesis .
  qed
qed

lemma performInsert_retryOperation:
  "performInsert opts name description r w =
     (case retryOperation opts (db_run_insert (bind_param name) (bind_param description)) r w of
        (Inl err, w1) \<Rightarrow> (res_status_json 500 (JsonError (err_message err)), w1)
      | (Inr lastID, w1) \<Rightarrow>
          (case db_get_by_id lastID w1 of
             (Inl err, w2) \<Rightarrow> (res_status_json 500 (JsonError (err_message err)), w2)
           | (Inr row, w2) \<Rightarrow> (res_json (json_row row), w2)))"
proof (induction opts name description r w rule: performInsert.induct)
  case (1 opts name description retries w)
  show ?case
  proof (cases "db_run_insert (bind_param name) (bind_param description) w")
    case (Pair res w1)
    show ?thesis
    proof (cases "\<exists>err. res = Inl err \<and> shouldRetry opts \<and> err_code err = ''SQLITE_BUSY'' \<and> retries > 0")
      case True
      then obtain err where res: "res = Inl err" and go: "shouldRetry opts \<and> err_code err = ''SQLITE_BUSY'' \<and> retries > 0"
        by blast
      note IH = 1[OF Pair[symmetric] res go]
      show ?thesis using IH
        by (subst performInsert.simps, subst retryOperation.simps) (simp add: Pair res go)
    next
      case False
      then show ?thesis
        by (subst performInsert.simps, subst retryOperation.simps) (cases res; auto simp: Pair)
    qed
  qed
qed

lemma performUpdate_retryOperation:
  "performUpdate opts name description i r w =
     (case retryOperation opts (db_run_update (bind_param name) (bind_param description) i) r w of
        (Inl err, w1) \<Rightarrow> (res_status_json 500 (JsonError (err_message err)), w1)
      | (Inr changes, w1) \<Rightarrow>
          if changes = 0 then (res_status_json 404 (JsonError ''Item not found''), w1)
          else
            (case db_get_by_id i w1 of
               (Inl err, w2) \<Rightarrow> (res_status_json 500 (JsonError (err_message err)), w2)
             | (Inr row, w2) \<Rightarrow> (res_json (json_row row), w2)))"
proof (induction opts name description i r w rule: performUpdate.induct)
  case (1 opts name description i retries w)
  show ?case
  proof (cases "db_run_update (bind_param name) (bind_param description) i w")
    case (Pair res w1)
    show ?thesis
    proof (cases "\<exists>err. res = Inl err \<and> shouldRetry opts \<and> err_code err = ''SQLITE_BUSY'' \<and> retries > 0")
      case True
      then obtain err where res: "res = Inl err" and go: "shouldRetry opts \<and> err_code err = ''SQLITE_BUSY'' \<and> retries > 0"
        by blast
      note IH = 1[OF Pair[symmetric] res go]
      show ?thesis using IH
        by (subst performUpdate.simps, subst retryOperation.simps) (simp add: Pair res go)
    next
      case False
      then show ?thesis
        by (subst performUpdate.simps, subst retryOperation.simps) (cases res; auto simp: Pair)
    qed
  qed
qed

lemma performDelete_retryOperation:
  "performDelete opts i r w =
     (case retryOperation opts (db_run_delete i) r w of
        (Inl err, w1) \<Rightarrow> (res_status_json 500 (JsonError (err_message err)), w1)
      | (Inr changes, w1) \<Rightarrow>
          if changes = 0 then (res_status_json 404 (JsonError ''Item not found''), w1)
          else (res_json (JsonMessage ''Item deleted''), w1))"
proof (induction opts i r w rule: performDelete.induct)
  case (1 opts i retries w)
  show ?case
  proof (cases "db_run_delete i w")
    case (Pair res w1)
    show ?thesis
    proof (cases "\<exists>err. res = Inl err \<and> shouldRetry opts \<and> err_code err = ''SQLITE_BUSY'' \<and> retries > 0")
      case True
      then obtain err where res: "res = Inl err" and go: "shouldRetry opts \<and> err_code err = ''SQLITE_BUSY'' \<and> retries > 0"
        by blast
      note IH = 1[OF Pair[symmetric] res go]
      show ?thesis using IH
        by (subst performDelete.simps, subst retryOperation.simps) (simp add: Pair res go)
    next
      case False
      then show ?thesis
        by (subst performDelete.simps, subst retryOperation.simps) (cases res; auto simp: Pair)
    qed
  qed
qed

lemma dbRun_db_call: "dbRun (db_call q sem) = db_call q (discard sem)"
  by (rule ext) (auto simp: dbRun_def db_call_def discard_def Let_def split: list.splits option.splits sum.splits prod.splits)

lemma insert_item_not_busy: "insert_item n d s = Inl e \<Longrightarrow> err_code e \<noteq> ''SQLITE_BUSY''"
  by (auto simp: insert_item_def SQLITE_CONSTRAINT_def Let_def split: option.splits)

lemma update_item_not_busy: "update_item n d i s = Inl e \<Longrightarrow> err_code e \<noteq> ''SQLITE_BUSY''"
  by (auto simp: update_item_def SQLITE_CONSTRAINT_def Let_def split: option.splits if_splits)

lemma delete_item_not_busy: "delete_item i s = Inl e \<Longrightarrow> err_code e \<noteq> ''SQLITE_BUSY''"
  by (simp add: delete_item_def)

lemma discard_not_busy:
  "(\<And>s e. sem s = Inl e \<Longrightarrow> err_code e \<noteq> ''SQLITE_BUSY'') \<Longrightarrow>
   discard sem s = Inl e \<Longrightarrow> err_code e \<noteq> ''SQLITE_BUSY''"
  by (auto simp: discard_def split: sum.splits)

lemma retryOperation_nofault:
  assumes "\<And>s e. sem s = Inl e \<Longrightarrow> err_code e \<noteq> ''SQLITE_BUSY''" "faults w = []"
  shows "retryOperation opts (db_call q sem) r w = db_call q sem w"
  using assms by (intro retryOperation_stop) auto

lemma select_by_id_None: "select_by_id i s = None \<longleftrightarrow> i \<notin> item_id ` set (rows s)"
  by (auto simp: select_by_id_def find_None_iff)

lemma filter_id_empty: "filter (\<lambda>r. item_id r = i) (rows s) = [] \<longleftrightarrow> select_by_id i s = None"
  by (auto simp: select_by_id_def find_None_iff filter_empty_conv)

lemma deleteItem_nofault:
  assumes "faults w = []"
  shows "deleteItem opts req w =
     (res_json (JsonMessage ''Item deleted''),
      w\<lparr>db := deleted (params_id req) (db w),
        trace := trace w @ [Exec (DeleteItem (params_id req)), Exec (SelectById (params_id req))]\<rparr>)"
proof -
  have "retryOperation opts (dbRun (db_run_delete (params_id req))) (maxRetries opts) w =
        db_call (DeleteItem (params_id req)) (discard (delete_item (params_id req))) w"
    unfolding db_run_delete_def dbRun_db_call
    by (rule retryOperation_nofault[OF discard_not_busy[OF delete_item_not_busy] assms])
  moreover have "select_by_id (params_id req) (deleted (params_id req) (db w)) = None"
    by (auto simp: select_by_id_None deleted_def)
  ultimately show ?thesis using assms
    by (simp add: deleteItem_def db_call_nofault discard_def delete_item_def db_get_by_id_def
        reading_def deleted_def)
qed

lemma router_delete_nofault:
  assumes "faults w = []"
  shows "router_delete opts req w =
     (if select_by_id (params_id req) (db w) = None
      then res_status_json 404 (JsonError ''Item not found'')
      else res_json (JsonMessage ''Item deleted''),
      w\<lparr>db := deleted (params_id req) (db w),
        trace := trace w @ [Exec (DeleteItem (params_id req))]\<rparr>)"
proof -
  have "retryOperation opts (db_run_delete (params_id req)) (maxRetries opts) w =
        db_call (DeleteItem (params_id req)) (delete_item (params_id req)) w"
    unfolding db_run_delete_def
    by (rule retryOperation_nofault[OF delete_item_not_busy assms])
  then show ?thesis using assms
    by (simp add: router_delete_def performDelete_retryOperation db_call_nofault delete_item_def
        deleted_def filter_id_empty)
qed

lemma select_by_id_updated:
  "select_by_id i (updated n d i s) =
     map_option (\<lambda>r. r\<lparr>item_name := n, item_description := d\<rparr>) (select_by_id i s)"
proof -
  have "find (\<lambda>r. item_id r = i)
          (map (\<lambda>r. if item_id r = i then r\<lparr>item_name := n, item_description := d\<rparr> else r) xs) =
        map_option (\<lambda>r. r\<lparr>item_name := n, item_description := d\<rparr>) (find (\<lambda>r. item_id r = i) xs)"
    for xs
    by (induction xs) auto
  then show ?thesis by (simp add: select_by_id_def updated_def)
qed

lemma updated_absent: "select_by_id i s = None \<Longrightarrow> updated n d i s = s"
proof -
  assume "select_by_id i s = None"
  then have "map (\<lambda>r. if item_id r = i then r\<lparr>item_name := n, item_description := d\<rparr> else r)
               (rows s) = rows s"
    by (intro map_idI) (auto simp: select_by_id_None)
  then show ?thesis by (simp add: updated_def)
qed

lemma updateItem_nofault:
  assumes "faults w = []" "body_name req = Str n" "n \<noteq> []"
  shows "updateItem opts req w =
     (case select_by_id (params_id req) (db w) of
        None \<Rightarrow> res_status_json 404 (JsonError ''Item not found'')
      | Some r \<Rightarrow> res_json (JsonItem (r\<lparr>item_name := n,
                      item_description := bind_param (body_description req)\<rparr>)),
      w\<lparr>db := updated n (bind_param (body_description req)) (params_id req) (db w),
        trace := trace w @ [Exec (UpdateItem (Some n) (bind_param (body_description req)) (params_id req)),
                            Exec (SelectById (params_id req))]\<rparr>)"
proof -
  let ?d = "bind_param (body_description req)" and ?i = "params_id req"
  have "retryOperation opts (dbRun (db_run_update (Some n) ?d ?i)) (maxRetries opts) w =
        db_call (UpdateItem (Some n) ?d ?i) (discard (update_item (Some n) ?d ?i)) w"
    unfolding db_run_update_def dbRun_db_call
    by (rule retryOperation_nofault[OF discard_not_busy[OF update_item_not_busy] assms(1)])
  then show ?thesis using assms select_by_id_updated[of ?i n ?d "db w"]
    by (auto simp: updateItem_def db_call_nofault discard_def update_item_def db_get_by_id_def
        reading_def updated_def split: option.splits)
qed

lemma router_put_nofault:
  assumes "faults w = []" "body_name req = Str n" "n \<noteq> []"
  shows "router_put opts req w =
     (case select_by_id (params_id req) (db w) of
        None \<Rightarrow>
          (res_status_json 404 (JsonError ''Item not found''),
           w\<lparr>trace := trace w @
               [Exec (UpdateItem (Some n) (bind_param (body_description req)) (params_id req))]\<rparr>)
      | Some r \<Rightarrow>
          (res_json (JsonItem (r\<lparr>item_name := n,
              item_description := bind_param (body_description req)\<rparr>)),
           w\<lparr>db := updated n (bind_param (body_description req)) (params_id req) (db w),
             trace := trace w @
               [Exec (UpdateItem (Some n) (bind_param (body_description req)) (params_id req)),
                Exec (SelectById (params_id req))]\<rparr>))"
proof -
  let ?d = "bind_param (body_description req)" and ?i = "params_id req"
  have r: "retryOperation opts (db_run_update (Some n) ?d ?i) (maxRetries opts) w =
        db_call (UpdateItem (Some n) ?d ?i) (update_item (Some n) ?d ?i) w"
    unfolding db_run_update_def
    by (rule retryOperation_nofault[OF update_item_not_busy assms(1)])
  show ?thesis
  proof (cases "select_by_id ?i (db w)")
    case None
    then have "filter (\<lambda>r. item_id r = ?i) (rows (db w)) = []" by (simp add: filter_id_empty)
    with None r assms updated_absent[OF None, of n ?d] show ?thesis
      by (simp add: router_put_def performUpdate_retryOperation db_call_nofault update_item_def
          updated_def)
  next
    case (Some x)
    then have "filter (\<lambda>r. item_id r = ?i) (rows (db w)) \<noteq> []" by (simp add: filter_id_empty)
    with Some r assms select_by_id_updated[of ?i n ?d "db w"] show ?thesis
      by (simp add: router_put_def performUpdate_retryOperation db_call_nofault update_item_def
          updated_def db_get_by_id_def reading_def)
  qed
qed

lemma greatest_id_snoc:
  "list_all (\<lambda>r. item_id r < item_id x) xs \<Longrightarrow> greatest_id (xs @ [x]) = Some x"
  by (induction xs) auto

lemma find_append_None: "find P xs = None \<Longrightarrow> find P (xs @ ys) = find P ys"
  by (induction xs) (auto split: if_splits)

lemma select_by_id_inserted:
  assumes "store_ok s"
  shows "select_by_id (sqlite_sequence s + 1) (inserted n d s) =
         Some \<lparr>item_id = sqlite_sequence s + 1, item_name = n, item_description = d\<rparr>"
proof -
  have "find (\<lambda>r. item_id r = sqlite_sequence s + 1) (rows s) = None"
    using assms by (auto simp: store_ok_def find_None_iff list_all_iff)
  then show ?thesis
    by (simp add: select_by_id_def inserted_def find_append_None)
qed

lemma select_by_name_description_inserted:
  assumes "store_ok s"
  shows "select_by_name_description (Some n) (Some d) (inserted n (Some d) s) =
         Some \<lparr>item_id = sqlite_sequence s + 1, item_name = n, item_description = Some d\<rparr>"
proof -
  have "list_all (\<lambda>r. item_id r < sqlite_sequence s + 1)
          (filter (name_description_match (Some n) (Some d)) (rows s))"
    using assms by (auto simp: store_ok_def list_all_iff)
  then show ?thesis
    by (simp add: select_by_name_description_def inserted_def name_description_match_def
        greatest_id_snoc)
qed

lemma select_by_name_description_null:
  "select_by_name_description n None s = None"
  by (simp add: select_by_name_description_def name_description_match_def split: option.splits)

lemma createNewItem_nofault:
  assumes "faults w = []" "body_name req = Str n" "n \<noteq> []"
  shows "createNewItem opts req w =
     (res_json (json_row (select_by_name_description (Some n) (bind_param (body_description req))
                  (inserted n (bind_param (body_description req)) (db w)))),
      w\<lparr>db := inserted n (bind_param (body_description req)) (db w),
        trace := trace w @
          [Exec (InsertItem (Some n) (bind_param (body_description req))),
           Exec (SelectByNameDescription (Some n) (bind_param (body_description req)))]\<rparr>)"
proof -
  let ?d = "bind_param (body_description req)"
  have "retryOperation opts (dbRun (db_run_insert (Some n) ?d)) (maxRetries opts) w =
        db_call (InsertItem (Some n) ?d) (discard (insert_item (Some n) ?d)) w"
    unfolding db_run_insert_def dbRun_db_call
    by (rule retryOperation_nofault[OF discard_not_busy[OF insert_item_not_busy] assms(1)])
  then show ?thesis using assms
    by (simp add: createNewItem_def db_call_nofault discard_def insert_item_def
        db_get_by_name_description_def reading_def inserted_def Let_def)
qed

lemma router_post_nofault:
  assumes "faults w = []" "body_name req = Str n" "n \<noteq> []"
  shows "router_post opts req w =
     (res_json (json_row (select_by_id (sqlite_sequence (db w) + 1)
                  (inserted n (bind_param (body_description req)) (db w)))),
      w\<lparr>db := inserted n (bind_param (body_description req)) (db w),
        trace := trace w @
          [Exec (InsertItem (Some n) (bind_param (body_description req))),
           Exec (SelectById (sqlite_sequence (db w) + 1))]\<rparr>)"
proof -
  let ?d = "bind_param (body_description req)"
  have "retryOperation opts (db_run_insert (Some n) ?d) (maxRetries opts) w =
        db_call (InsertItem (Some n) ?d) (insert_item (Some n) ?d) w"
    unfolding db_run_insert_def
    by (rule retryOperation_nofault[OF insert_item_not_busy assms(1)])
  then show ?thesis using assms
    by (simp add: router_post_def performInsert_retryOperation db_call_nofault insert_item_def
        db_get_by_id_def reading_def inserted_def Let_def)
qed

lemma getItemById_nofault:
  assumes "faults w = []"
  shows "getItemById req w =
     (case select_by_id (params_id req) (db w) of
        None \<Rightarrow> res_status_json 404 (JsonError ''Item not found'')
      | Some r \<Rightarrow> res_json (JsonItem r),
      w\<lparr>trace := trace w @ [Exec (SelectById (params_id req))]\<rparr>)"
  using assms
  by (simp add: getItemById_def db_get_by_id_def db_call_nofault reading_def split: option.splits)

lemma router_get_id_eq: "router_get_id = getItemById"
  by (rule ext, rule ext) (simp add: router_get_id_def getItemById_def)

lemma router_get_all_eq: "router_get_all = getAllItems"
  by (rule ext, rule ext) (simp add: router_get_all_def getAllItems_def)


section \<open>Validation\<close>

text \<open>
  C7. A Create or an Update whose body has no name, a \<^verbatim>\<open>null\<close> name or an empty name
  is answered with 400 and \<^verbatim>\<open>{"error": "Name is required"}\<close> whatever the other fields
  are, in both routers, and the world is left as it was: no statement was sent (the
  trace is the same) and the table is the same.
\<close>

theorem nameless_request_rejected_before_storage:
  assumes "body_name req \<in> {Undefined, Null, Str []}"
  shows "createNewItem opts req w = (\<lparr>status = 400, body = JsonError ''Name is required''\<rparr>, w)
       \<and> updateItem opts req w = (\<lparr>status = 400, body = JsonError ''Name is required''\<rparr>, w)
       \<and> router_post opts req w = (\<lparr>status = 400, body = JsonError ''Name is required''\<rparr>, w)
       \<and> router_put opts req w = (\<lparr>status = 400, body = JsonError ''Name is required''\<rparr>, w)"
proof -
  from assms have "\<not> truthy (body_name req)" by auto
  then show ?thesis
    by (simp add: createNewItem_def updateItem_def router_post_def router_put_def
        res_status_json_def)
qed

theorem nameless_request_rejected_before_storage_witness:
  "Null \<in> {Undefined, Null, Str []}
   \<and> createNewItem no_options (item_request 7 Null (Str ''a text'')) empty_world =
       (\<lparr>status = 400, body = JsonError ''Name is required''\<rparr>, empty_world)
   \<and> router_put no_options (item_request 7 Null (Str ''a text'')) empty_world =
       (\<lparr>status = 400, body = JsonError ''Name is required''\<rparr>, empty_world)"
  using nameless_request_rejected_before_storage
          [of "item_request 7 Null (Str ''a text'')" no_options empty_world]
  by (simp add: item_request_def)

section \<open>Delete\<close>

text \<open>
  C1. The claim is that a Delete of an id that no row has is answered with 404 and never
  with \<^verbatim>\<open>{"message": "Item deleted"}\<close>. The callback router does so; the promise
  router's \<^verbatim>\<open>deleteItem\<close> looks the row up after the \<^verbatim>\<open>DELETE\<close> and answers 404
  when it is still there, so on a fresh table a Delete of id 1 is acknowledged with 200.
\<close>

theorem deleteItem_absent_id_acknowledged:
  "deleteItem no_options (item_request 1 Undefined Undefined) empty_world =
     (\<lparr>status = 200, body = JsonMessage ''Item deleted''\<rparr>,
      empty_world\<lparr>trace := [Exec (DeleteItem 1), Exec (SelectById 1)]\<rparr>)
   \<and> router_delete no_options (item_request 1 Undefined Undefined) empty_world =
     (\<lparr>status = 404, body = JsonError ''Item not found''\<rparr>,
      empty_world\<lparr>trace := [Exec (DeleteItem 1)]\<rparr>)"
  by (simp add: deleteItem_nofault router_delete_nofault empty_world_def item_request_def
      deleted_def select_by_id_def res_json_def res_status_json_def)

section \<open>The retry policy\<close>

lemma count_list_append: "count_list (xs @ ys) x = count_list xs x + count_list ys x"
  by (induction xs) auto

lemma count_list_rounds:
  "count_list (concat (replicate n [Exec q, Timeout d])) (Exec q) = n"
  by (induction n) auto

lemma trace_db_call: "trace (snd (db_call q sem w)) = trace w @ [Exec q]"
  by (auto simp: db_call_def Let_def split: list.splits option.splits sum.splits)

lemma retried_le: "retried opts r fs \<le> r"
proof -
  have "length (takeWhile is_busy_fault (take r fs)) \<le> length (take r fs)"
    by (rule length_takeWhile_le)
  then show ?thesis by (simp add: retried_def)
qed

lemma takeWhile_replicate_append:
  "P x \<Longrightarrow> takeWhile P (replicate k x @ ys) = replicate k x @ takeWhile P ys"
  by (induction k) auto

lemma retried_busy_prefix:
  assumes "shouldRetry opts" "k \<le> r" "rest = [] \<or> hd rest = None"
  shows "retried opts r (replicate k (Some SQLITE_BUSY) @ rest) = k"
proof -
  have b: "is_busy_fault (Some SQLITE_BUSY)" by (simp add: is_busy_fault_def SQLITE_BUSY_def)
  have "takeWhile is_busy_fault (take (r - k) rest) = []"
    using assms(3) by (cases rest; cases "r - k") (auto simp: is_busy_fault_def)
  moreover have "take r (replicate k (Some SQLITE_BUSY) @ rest) =
        replicate k (Some SQLITE_BUSY) @ take (r - k) rest"
    using assms(2) by (simp add: min_def)
  ultimately have "takeWhile is_busy_fault (take r (replicate k (Some SQLITE_BUSY) @ rest)) =
        replicate k (Some SQLITE_BUSY)"
    using b by (simp add: takeWhile_replicate_append)
  then show ?thesis using assms(1) by (simp add: retried_def)
qed

lemma retried_busy_exhausted:
  assumes "shouldRetry opts" "r < k"
  shows "retried opts r (replicate k (Some SQLITE_BUSY) @ rest) = r"
proof -
  have b: "is_busy_fault (Some SQLITE_BUSY)" by (simp add: is_busy_fault_def SQLITE_BUSY_def)
  have "take r (replicate k (Some SQLITE_BUSY) @ rest) = replicate r (Some SQLITE_BUSY)"
    using assms(2) by (simp add: min_def)
  then show ?thesis using assms(1) b by (simp add: retried_def)
qed

text \<open>
  C4. \<^verbatim>\<open>retryOperation\<close> around a statement \<open>q\<close> that is not busy by itself: with
  \<open>n\<close> the number of busy outcomes at the head of the engine's stock, capped by
  \<open>maxRetries\<close> and zero when retrying is off, the statement is attempted \<open>n\<close> times
  in vain, each time followed by a wait of \<open>retryDelay\<close>, and once more, and the outcome
  of that last attempt, success or error, is returned as it is. So the statement runs
  \<open>n + 1 \<le> 1 + maxRetries\<close> times; an error that is not busy ends the loop at once; with
  retrying on, \<open>k \<le> maxRetries\<close> busy outcomes followed by none give the statement's
  result, and more than \<open>maxRetries\<close> busy outcomes give the busy error after
  \<open>1 + maxRetries\<close> attempts. The loops \<^verbatim>\<open>performInsert\<close>, \<^verbatim>\<open>performUpdate\<close> and
  \<^verbatim>\<open>performDelete\<close> of the callback router are \<^verbatim>\<open>retryOperation\<close> around their
  statement, followed by their answer.
\<close>

theorem retry_policy:
  fixes opts :: options and w :: world and q :: stmt
    and sem :: "store \<Rightarrow> dberror + 'a \<times> store"
  assumes sem: "\<And>s e. sem s = Inl e \<Longrightarrow> err_code e \<noteq> ''SQLITE_BUSY''"
  defines "n \<equiv> retried opts (maxRetries opts) (faults w)"
  defines "result \<equiv> retryOperation opts (db_call q sem) (maxRetries opts) w"
  shows "result = db_call q sem (after_retries opts q n w)
       \<and> n \<le> maxRetries opts
       \<and> count_list (trace (snd result)) (Exec q) = count_list (trace w) (Exec q) + n + 1
       \<and> (\<not> shouldRetry opts \<longrightarrow> n = 0)
       \<and> (\<forall>e rest. faults w = Some e # rest \<and> err_code e \<noteq> ''SQLITE_BUSY'' \<longrightarrow>
             result = (Inl e, w\<lparr>trace := trace w @ [Exec q], faults := rest\<rparr>))
       \<and> (\<forall>k rest v s.
             shouldRetry opts \<and> k \<le> maxRetries opts \<and>
             faults w = replicate k (Some SQLITE_BUSY) @ rest \<and> (rest = [] \<or> hd rest = None) \<and>
             sem (db w) = Inr (v, s) \<longrightarrow>
             n = k \<and> fst result = Inr v \<and> db (snd result) = s)
       \<and> (\<forall>k rest.
             shouldRetry opts \<and> maxRetries opts < k \<and>
             faults w = replicate k (Some SQLITE_BUSY) @ rest \<longrightarrow>
             n = maxRetries opts \<and> fst result = Inl SQLITE_BUSY \<and> db (snd result) = db w)
       \<and> performInsert opts name description r w1 =
             (case retryOperation opts (db_run_insert (bind_param name) (bind_param description)) r w1 of
                (Inl err, w2) \<Rightarrow> (res_status_json 500 (JsonError (err_message err)), w2)
              | (Inr lastID, w2) \<Rightarrow>
                  (case db_get_by_id lastID w2 of
                     (Inl err, w3) \<Rightarrow> (res_status_json 500 (JsonError (err_message err)), w3)
                   | (Inr row, w3) \<Rightarrow> (res_json (json_row row), w3)))
       \<and> performUpdate opts name description i r w1 =
             (case retryOperation opts (db_run_update (bind_param name) (bind_param description) i) r w1 of
                (Inl err, w2) \<Rightarrow> (res_status_json 500 (JsonError (err_message err)), w2)
              | (Inr changes, w2) \<Rightarrow>
                  if changes = 0 then (res_status_json 404 (JsonError ''Item not found''), w2)
                  else
                    (case db_get_by_id i w2 of
                       (Inl err, w3) \<Rightarrow> (res_status_json 500 (JsonError (err_message err)), w3)
                     | (Inr row, w3) \<Rightarrow> (res_json (json_row row), w3)))
       \<and> performDelete opts i r w1 =
             (case retryOperation opts (db_run_delete i) r w1 of
                (Inl err, w2) \<Rightarrow> (res_status_json 500 (JsonError (err_message err)), w2)
              | (Inr changes, w2) \<Rightarrow>
                  if changes = 0 then (res_status_json 404 (JsonError ''Item not found''), w2)
                  else (res_json (JsonMessage ''Item deleted''), w2))"
proof -
  have eq: "result = db_call q sem (after_retries opts q n w)"
    unfolding result_def n_def by (rule retryOperation_db_call[OF sem])
  have le: "n \<le> maxRetries opts"
    unfolding n_def by (rule retried_le)
  have cnt: "count_list (trace (snd result)) (Exec q) = count_list (trace w) (Exec q) + n + 1"
    by (simp add: eq trace_db_call after_retries_def count_list_append count_list_rounds)
  have off: "\<not> shouldRetry opts \<longrightarrow> n = 0"
    by (simp add: n_def retried_def)
  have other: "result = (Inl e, w\<lparr>trace := trace w @ [Exec q], faults := rest\<rparr>)"
    if "faults w = Some e # rest \<and> err_code e \<noteq> ''SQLITE_BUSY''" for e rest
  proof -
    from that have "n = 0"
      by (cases "maxRetries opts") (simp_all add: n_def retried_def is_busy_fault_def)
    with that show ?thesis by (simp add: eq after_retries_0 db_call_fault)
  qed
  have good: "n = k \<and> fst result = Inr v \<and> db (snd result) = s"
    if "shouldRetry opts \<and> k \<le> maxRetries opts \<and>
        faults w = replicate k (Some SQLITE_BUSY) @ rest \<and> (rest = [] \<or> hd rest = None) \<and>
        sem (db w) = Inr (v, s)" for k rest v s
  proof -
    from that have nk: "n = k" by (simp add: n_def retried_busy_prefix)
    have "faults (after_retries opts q k w) = rest"
      using that by (simp add: after_retries_def)
    moreover have "db (after_retries opts q k w) = db w" by (simp add: after_retries_def)
    ultimately have "fst (db_call q sem (after_retries opts q k w)) = Inr v \<and>
                     db (snd (db_call q sem (after_retries opts q k w))) = s"
      using that by (cases rest; cases "hd rest") (auto simp: db_call_def Let_def)
    with nk eq show ?thesis by simp
  qed
  have bad: "n = maxRetries opts \<and> fst result = Inl SQLITE_BUSY \<and> db (snd result) = db w"
    if "shouldRetry opts \<and> maxRetries opts < k \<and>
        faults w = replicate k (Some SQLITE_BUSY) @ rest" for k rest
  proof -
    from that have nk: "n = maxRetries opts" by (simp add: n_def retried_busy_exhausted)
    from that have "faults (after_retries opts q (maxRetries opts) w) =
        Some SQLITE_BUSY # replicate (k - Suc (maxRetries opts)) (Some SQLITE_BUSY) @ rest"
      by (cases "k - maxRetries opts") (auto simp: after_retries_def)
    then have "db_call q sem (after_retries opts q (maxRetries opts) w) =
       (Inl SQLITE_BUSY, (after_retries opts q (maxRetries opts) w)
          \<lparr>trace := trace (after_retries opts q (maxRetries opts) w) @ [Exec q],
           faults := replicate (k - Suc (maxRetries opts)) (Some SQLITE_BUSY) @ rest\<rparr>)"
      by (rule db_call_fault)
    with nk eq show ?thesis by (simp add: after_retries_def)
  qed
  note loops = performInsert_retryOperation[of opts name description r w1]
    performUpdate_retryOperation[of opts name description i r w1]
    performDelete_retryOperation[of opts i r w1]
  have p5: "\<forall>e rest. faults w = Some e # rest \<and> err_code e \<noteq> ''SQLITE_BUSY'' \<longrightarrow>
             result = (Inl e, w\<lparr>trace := trace w @ [Exec q], faults := rest\<rparr>)"
    using other by blast
  have p6: "\<forall>k rest v s.
             shouldRetry opts \<and> k \<le> maxRetries opts \<and>
             faults w = replicate k (Some SQLITE_BUSY) @ rest \<and> (rest = [] \<or> hd rest = None) \<and>
             sem (db w) = Inr (v, s) \<longrightarrow>
             n = k \<and> fst result = Inr v \<and> db (snd result) = s"
    using good by blast
  have p7: "\<forall>k rest.
             shouldRetry opts \<and> maxRetries opts < k \<and>
             faults w = replicate k (Some SQLITE_BUSY) @ rest \<longrightarrow>
             n = maxRetries opts \<and> fst result = Inl SQLITE_BUSY \<and> db (snd result) = db w"
    using bad by blast
  show ?thesis
    by (intro conjI) (fact eq le cnt off p5 p6 p7 loops)+
qed

theorem retry_policy_witness:
  "\<not> (\<exists>s e. delete_item 1 s = Inl e \<and> err_code e = ''SQLITE_BUSY'')
   \<and> retryOperation retry_options (db_call (DeleteItem 1) (delete_item 1))
       (maxRetries retry_options) busy_twice =
     (Inr 0, empty_world\<lparr>trace := [Exec (DeleteItem 1), Timeout 100, Exec (DeleteItem 1),
                                     Timeout 100, Exec (DeleteItem 1)]\<rparr>)"
proof -
  have h: "\<And>s e. delete_item 1 s = Inl e \<Longrightarrow> err_code e \<noteq> ''SQLITE_BUSY''"
    by (rule delete_item_not_busy)
  have "retryOperation retry_options (db_call (DeleteItem 1) (delete_item 1))
       (maxRetries retry_options) busy_twice =
        db_call (DeleteItem 1) (delete_item 1)
          (after_retries retry_options (DeleteItem 1)
             (retried retry_options (maxRetries retry_options) (faults busy_twice)) busy_twice)"
    by (rule retry_policy[THEN conjunct1]) (rule h)
  moreover have "retried retry_options (maxRetries retry_options) (faults busy_twice) = 2"
    by (simp add: retried_def retry_options_def shouldRetry_def maxRetries_def or_default_def
        busy_twice_def is_busy_fault_def SQLITE_BUSY_def numeral_3_eq_3)
  ultimately show ?thesis using h
    by (auto simp: after_retries_def busy_twice_def empty_world_def db_call_def delete_item_def
        retryDelay_def retry_options_def or_default_def numeral_2_eq_2)
qed

section \<open>List\<close>

lemma status_simps [simp]:
  "status (res_status_json c b) = c" "status (res_json b) = 200"
  "body (res_status_json c b) = b" "body (res_json b) = b"
  by (simp_all add: res_status_json_def res_json_def)










section \<open>Update\<close>

lemma rows_updated:
  "rows (updated n d i s) =
     map (\<lambda>x. if item_id x = i then x\<lparr>item_name := n, item_description := d\<rparr> else x) (rows s)"
  by (simp add: updated_def)

lemma sqlite_sequence_updated: "sqlite_sequence (updated n d i s) = sqlite_sequence s"
  by (simp add: updated_def)

lemma ids_updated: "map item_id (rows (updated n d i s)) = map item_id (rows s)"
  by (simp add: updated_def)

lemma select_by_id_updated_other:
  "j \<noteq> i \<Longrightarrow> select_by_id j (updated n d i s) = select_by_id j s"
proof -
  assume ji: "j \<noteq> i"
  have "find (\<lambda>r. item_id r = j)
          (map (\<lambda>r. if item_id r = i then r\<lparr>item_name := n, item_description := d\<rparr> else r) xs) =
        find (\<lambda>r. item_id r = j) xs" for xs
    using ji by (induction xs) auto
  then show ?thesis by (simp add: select_by_id_def updated_def)
qed

text \<open>
  C8. With a storage engine that raises nothing, an Update with a text name \<open>n\<close> that is
  not empty, on id \<open>i\<close>: when a row has that id, both routers answer 200 with that row
  carrying the new name and description, and the table afterwards is the old one with
  exactly the name and the description of the rows of id \<open>i\<close> replaced (ids, order, the
  other rows and the sequence are the same); when no row has that id, both answer 404
  and the table is the same.
\<close>

theorem update_changes_name_and_description_only:
  fixes req :: request and w :: world and opts :: options
  defines "i \<equiv> params_id req"
  defines "d \<equiv> bind_param (body_description req)"
  assumes nofault: "faults w = []" and name: "body_name req = Str n" and n: "n \<noteq> []"
  shows "(case select_by_id i (db w) of
            None \<Rightarrow>
              fst (updateItem opts req w) = \<lparr>status = 404, body = JsonError ''Item not found''\<rparr> \<and>
              fst (router_put opts req w) = \<lparr>status = 404, body = JsonError ''Item not found''\<rparr> \<and>
              db (snd (updateItem opts req w)) = db w \<and>
              db (snd (router_put opts req w)) = db w
          | Some r \<Rightarrow>
              fst (updateItem opts req w) =
                \<lparr>status = 200, body = JsonItem (r\<lparr>item_name := n, item_description := d\<rparr>)\<rparr> \<and>
              fst (router_put opts req w) =
                \<lparr>status = 200, body = JsonItem (r\<lparr>item_name := n, item_description := d\<rparr>)\<rparr>)
       \<and> rows (db (snd (updateItem opts req w))) =
           map (\<lambda>x. if item_id x = i then x\<lparr>item_name := n, item_description := d\<rparr> else x)
             (rows (db w))
       \<and> db (snd (router_put opts req w)) = db (snd (updateItem opts req w))
       \<and> sqlite_sequence (db (snd (updateItem opts req w))) = sqlite_sequence (db w)
       \<and> map item_id (rows (db (snd (updateItem opts req w)))) = map item_id (rows (db w))
       \<and> (\<forall>j. j \<noteq> i \<longrightarrow>
             select_by_id j (db (snd (updateItem opts req w))) = select_by_id j (db w))"
proof -
  note p = updateItem_nofault[OF nofault name n, of opts, folded i_def d_def]
  note c = router_put_nofault[OF nofault name n, of opts, folded i_def d_def]
  have answers: "(case select_by_id i (db w) of
            None \<Rightarrow>
              fst (updateItem opts req w) = \<lparr>status = 404, body = JsonError ''Item not found''\<rparr> \<and>
              fst (router_put opts req w) = \<lparr>status = 404, body = JsonError ''Item not found''\<rparr> \<and>
              db (snd (updateItem opts req w)) = db w \<and>
              db (snd (router_put opts req w)) = db w
          | Some r \<Rightarrow>
              fst (updateItem opts req w) =
                \<lparr>status = 200, body = JsonItem (r\<lparr>item_name := n, item_description := d\<rparr>)\<rparr> \<and>
              fst (router_put opts req w) =
                \<lparr>status = 200, body = JsonItem (r\<lparr>item_name := n, item_description := d\<rparr>)\<rparr>)"
    by (cases "select_by_id i (db w)")
       (simp_all add: p c updated_absent res_status_json_def res_json_def)
  have dbp: "db (snd (updateItem opts req w)) = updated n d i (db w)"
    by (simp add: p)
  have dbc: "db (snd (router_put opts req w)) = db (snd (updateItem opts req w))"
    by (cases "select_by_id i (db w)") (simp_all add: p c updated_absent)
  have rws: "rows (db (snd (updateItem opts req w))) =
           map (\<lambda>x. if item_id x = i then x\<lparr>item_name := n, item_description := d\<rparr> else x)
             (rows (db w))"
    by (simp add: dbp rows_updated)
  have sq: "sqlite_sequence (db (snd (updateItem opts req w))) = sqlite_sequence (db w)"
    by (simp add: dbp sqlite_sequence_updated)
  have ids: "map item_id (rows (db (snd (updateItem opts req w)))) = map item_id (rows (db w))"
    unfolding dbp by (rule ids_updated)
  have others: "\<forall>j. j \<noteq> i \<longrightarrow>
             select_by_id j (db (snd (updateItem opts req w))) = select_by_id j (db w)"
    by (simp add: dbp select_by_id_updated_other)
  show ?thesis
    by (intro conjI) (fact answers rws dbc sq ids others)+
qed

lemma item_request_simps [simp]:
  "params_id (item_request i n d) = i" "body_name (item_request i n d) = n"
  "body_description (item_request i n d) = d"
  by (simp_all add: item_request_def)

theorem update_changes_name_and_description_only_witness:
  "fst (router_put no_options (item_request 2 (Str ''B'') (Str ''y'')) three_rows) =
     \<lparr>status = 200, body = JsonItem \<lparr>item_id = 2, item_name = ''B'', item_description = Some ''y''\<rparr>\<rparr>
   \<and> rows (db (snd (updateItem no_options (item_request 2 (Str ''B'') (Str ''y'')) three_rows))) =
       [\<lparr>item_id = 1, item_name = ''a'', item_description = Some ''x''\<rparr>,
        \<lparr>item_id = 2, item_name = ''B'', item_description = Some ''y''\<rparr>,
        \<lparr>item_id = 4, item_name = ''c'', item_description = Some ''z''\<rparr>]
   \<and> fst (updateItem no_options (item_request 3 (Str ''B'') (Str ''y'')) three_rows) =
       \<lparr>status = 404, body = JsonError ''Item not found''\<rparr>"
proof -
  have f: "faults three_rows = []" by (simp add: three_rows_def)
  have n2: "body_name (item_request 2 (Str ''B'') (Str ''y'')) = Str ''B''"
    and n3: "body_name (item_request 3 (Str ''B'') (Str ''y'')) = Str ''B''"
    by simp_all
  have ne: "''B'' \<noteq> []" by simp
  have s2: "select_by_id 2 (db three_rows) =
      Some \<lparr>item_id = 2, item_name = ''b'', item_description = None\<rparr>"
    and s3: "select_by_id 3 (db three_rows) = None"
    by (simp_all add: select_by_id_def three_rows_def)
  have r: "rows (db three_rows) =
       [\<lparr>item_id = 1, item_name = ''a'', item_description = Some ''x''\<rparr>,
        \<lparr>item_id = 2, item_name = ''b'', item_description = None\<rparr>,
        \<lparr>item_id = 4, item_name = ''c'', item_description = Some ''z''\<rparr>]"
    by (simp add: three_rows_def)
  from update_changes_name_and_description_only[OF f n2 ne, of no_options]
       update_changes_name_and_description_only[OF f n3 ne, of no_options]
  show ?thesis
    by (simp add: s2 s3 r)
qed

section \<open>Create and read back\<close>

lemma router_post_roundtrip:
  assumes "faults w = []" "store_ok (db w)" "body_name req = Str n" "n \<noteq> []"
  defines "new \<equiv> \<lparr>item_id = sqlite_sequence (db w) + 1, item_name = n,
                    item_description = bind_param (body_description req)\<rparr>"
  shows "fst (router_post opts req w) = res_json (JsonItem new)
       \<and> fst (getItemById (req\<lparr>params_id := item_id new\<rparr>) (snd (router_post opts req w))) =
           res_json (JsonItem new)"
  using assms(1-4)
  by (simp add: router_post_nofault getItemById_nofault select_by_id_inserted new_def)

lemma createNewItem_roundtrip_text:
  assumes "faults w = []" "store_ok (db w)" "body_name req = Str n" "n \<noteq> []"
    "body_description req = Str d"
  defines "new \<equiv> \<lparr>item_id = sqlite_sequence (db w) + 1, item_name = n, item_description = Some d\<rparr>"
  shows "fst (createNewItem opts req w) = res_json (JsonItem new)
       \<and> fst (getItemById (req\<lparr>params_id := item_id new\<rparr>) (snd (createNewItem opts req w))) =
           res_json (JsonItem new)"
  using assms(1-5)
  by (simp add: createNewItem_nofault getItemById_nofault select_by_id_inserted
      select_by_name_description_inserted new_def)

lemma createNewItem_null_description:
  assumes "faults w = []" "body_name req = Str n" "n \<noteq> []" "bind_param (body_description req) = None"
  shows "fst (createNewItem opts req w) = res_json JsonUndefined"
  using assms
  by (simp add: createNewItem_nofault select_by_name_description_null)

text \<open>
  C2. The claim is that the item Create returns is the item GetById then returns for its
  id, also when the description is missing or \<^verbatim>\<open>null\<close>. The callback router reads the
  new row back by \<^verbatim>\<open>lastID\<close> and does so. The promise router reads it back with
  \<^verbatim>\<open>WHERE name = ? AND description = ?\<close>, which no row satisfies when the description is
  \<^verbatim>\<open>NULL\<close>: for \<^verbatim>\<open>{"name": "a", "description": null}\<close> on a fresh table it answers
  200 with no item, while
  GetById on id 1 then returns the stored item.
\<close>

theorem createNewItem_without_description_returns_no_item:
  "fst (createNewItem no_options (item_request 0 (Str ''a'') Null) empty_world) =
     \<lparr>status = 200, body = JsonUndefined\<rparr>
   \<and> fst (getItemById (item_request 1 Undefined Undefined)
           (snd (createNewItem no_options (item_request 0 (Str ''a'') Null) empty_world))) =
     \<lparr>status = 200, body = JsonItem \<lparr>item_id = 1, item_name = ''a'', item_description = None\<rparr>\<rparr>
   \<and> fst (router_post no_options (item_request 0 (Str ''a'') Null) empty_world) =
     \<lparr>status = 200, body = JsonItem \<lparr>item_id = 1, item_name = ''a'', item_description = None\<rparr>\<rparr>"
proof -
  let ?w = "empty_world\<lparr>db := inserted ''a'' None (db empty_world),
              trace := trace empty_world @
                [Exec (InsertItem (Some ''a'') None),
                 Exec (SelectByNameDescription (Some ''a'') None)]\<rparr>"
  have f: "faults empty_world = []" by (simp add: empty_world_def)
  have c: "createNewItem no_options (item_request 0 (Str ''a'') Null) empty_world =
           (res_json JsonUndefined, ?w)"
    by (simp add: createNewItem_nofault[OF f] select_by_name_description_null)
  have f': "faults ?w = []" by (simp add: f)
  have s: "select_by_id 1 (db ?w) = Some \<lparr>item_id = 1, item_name = ''a'', item_description = None\<rparr>"
    by (simp add: inserted_def select_by_id_def empty_world_def)
  have g: "fst (getItemById (item_request 1 Undefined Undefined) ?w) =
           res_json (JsonItem \<lparr>item_id = 1, item_name = ''a'', item_description = None\<rparr>)"
    by (simp only: getItemById_nofault[OF f'] item_request_simps s fst_conv option.case)
  have "select_by_id (sqlite_sequence (db empty_world) + 1) (inserted ''a'' None (db empty_world)) =
        Some \<lparr>item_id = 1, item_name = ''a'', item_description = None\<rparr>"
    by (simp add: inserted_def select_by_id_def empty_world_def)
  then have p: "fst (router_post no_options (item_request 0 (Str ''a'') Null) empty_world) =
           res_json (JsonItem \<lparr>item_id = 1, item_name = ''a'', item_description = None\<rparr>)"
    by (simp add: router_post_nofault[OF f])
  from c g p show ?thesis
    by (simp add: res_json_def res_status_json_def)
qed

section \<open>How NotFound is decided\<close>

lemma trace_after_retries:
  "trace (snd (db_call q sem (after_retries opts q n w))) =
     trace w @ concat (replicate n [Exec q, Timeout (retryDelay opts)]) @ [Exec q]"
  by (simp add: trace_db_call after_retries_def)

lemma db_call_Inr: "fst (db_call q sem w) = Inr v \<Longrightarrow> \<exists>s. sem (db w) = Inr (v, s)"
  by (auto simp: db_call_def Let_def split: list.splits option.splits sum.splits)

lemma db_after_retries: "db (after_retries opts q n w) = db w"
  by (simp add: after_retries_def)

lemma retry_update_changes:
  assumes "fst (retryOperation opts (db_run_update n d i) r w) = Inr c"
  shows "c = length (filter (\<lambda>x. item_id x = i) (rows (db w)))"
proof -
  have "retryOperation opts (db_call (UpdateItem n d i) (update_item n d i)) r w =
        db_call (UpdateItem n d i) (update_item n d i)
          (after_retries opts (UpdateItem n d i) (retried opts r (faults w)) w)"
    by (rule retryOperation_db_call[OF update_item_not_busy])
  with assms obtain s where "update_item n d i (db w) = Inr (c, s)"
    unfolding db_run_update_def
    by (auto dest!: db_call_Inr simp: db_after_retries)
  then show ?thesis
    by (auto simp: update_item_def Let_def split: option.splits if_splits)
qed

lemma retry_delete_changes:
  assumes "fst (retryOperation opts (db_run_delete i) r w) = Inr c"
  shows "c = length (filter (\<lambda>x. item_id x = i) (rows (db w)))"
proof -
  have "retryOperation opts (db_call (DeleteItem i) (delete_item i)) r w =
        db_call (DeleteItem i) (delete_item i)
          (after_retries opts (DeleteItem i) (retried opts r (faults w)) w)"
    by (rule retryOperation_db_call[OF delete_item_not_busy])
  with assms obtain s where "delete_item i (db w) = Inr (c, s)"
    unfolding db_run_delete_def
    by (auto dest!: db_call_Inr simp: db_after_retries)
  then show ?thesis
    by (auto simp: delete_item_def)
qed

text \<open>
  C3, as the claim states it, fails on the promise router: its Update of an id that no
  row has sends the \<^verbatim>\<open>UPDATE\<close> and then a \<^verbatim>\<open>SELECT\<close> by id, and answers 404 from what
  the \<^verbatim>\<open>SELECT\<close> found.
\<close>

theorem updateItem_probes_after_update:
  "fst (updateItem no_options (item_request 1 (Str ''a'') Null) empty_world) =
     \<lparr>status = 404, body = JsonError ''Item not found''\<rparr>
   \<and> trace (snd (updateItem no_options (item_request 1 (Str ''a'') Null) empty_world)) =
     [Exec (UpdateItem (Some ''a'') None 1), Exec (SelectById 1)]"
proof -
  have f: "faults empty_world = []" by (simp add: empty_world_def)
  show ?thesis
    by (simp add: updateItem_nofault[OF f])
       (simp add: empty_world_def select_by_id_def res_status_json_def)
qed

text \<open>
  C3, amended. In the callback router an Update (with a name) and a Delete answer 404
  exactly when the mutating statement, under the retry policy, went through with zero rows
  affected, that is when no row has the id; the world after a 404 is the world after that
  statement, and the statements sent up to there are the attempts of the mutating
  statement only. In the promise router
  an Update answers 404 exactly when the \<^verbatim>\<open>UPDATE\<close> went through and the
  \<^verbatim>\<open>SELECT\<close> by id sent after it found no row.
\<close>

theorem not_found_decided_by_rows_affected:
  fixes req :: request and w :: world and opts :: options
  defines "n \<equiv> bind_param (body_name req)"
  defines "d \<equiv> bind_param (body_description req)"
  defines "i \<equiv> params_id req"
  defines "upd \<equiv> retryOperation opts (db_run_update n d i) (maxRetries opts) w"
  defines "del \<equiv> retryOperation opts (db_run_delete i) (maxRetries opts) w"
  defines "k \<equiv> retried opts (maxRetries opts) (faults w)"
  assumes name: "truthy (body_name req)"
  shows "(status (fst (router_put opts req w)) = 404 \<longleftrightarrow> fst upd = Inr 0)
       \<and> (status (fst (router_put opts req w)) = 404 \<longrightarrow> snd (router_put opts req w) = snd upd)
       \<and> trace (snd upd) =
           trace w @ concat (replicate k [Exec (UpdateItem n d i), Timeout (retryDelay opts)]) @
             [Exec (UpdateItem n d i)]
       \<and> (status (fst (router_delete opts req w)) = 404 \<longleftrightarrow> fst del = Inr 0)
       \<and> snd (router_delete opts req w) = snd del
       \<and> trace (snd del) =
           trace w @ concat (replicate k [Exec (DeleteItem i), Timeout (retryDelay opts)]) @
             [Exec (DeleteItem i)]
       \<and> (\<forall>c. fst upd = Inr c \<or> fst del = Inr c \<longrightarrow>
              c = length (filter (\<lambda>x. item_id x = i) (rows (db w))))
       \<and> (status (fst (updateItem opts req w)) = 404 \<longleftrightarrow>
            (case retryOperation opts (dbRun (db_run_update n d i)) (maxRetries opts) w of
               (Inl err, w1) \<Rightarrow> False
             | (Inr u, w1) \<Rightarrow> fst (db_get_by_id i w1) = Inr None))"
proof -
  have put: "router_put opts req w = performUpdate opts (body_name req) (body_description req) i
               (maxRetries opts) w"
    using name by (simp add: router_put_def i_def)
  have a: "status (fst (router_put opts req w)) = 404 \<longleftrightarrow> fst upd = Inr 0"
    unfolding put performUpdate_retryOperation upd_def n_def d_def
    by (auto split: prod.splits sum.splits)
  have b: "status (fst (router_put opts req w)) = 404 \<longrightarrow> snd (router_put opts req w) = snd upd"
    unfolding put performUpdate_retryOperation upd_def n_def d_def
    by (auto split: prod.splits sum.splits)
  have c: "trace (snd upd) =
           trace w @ concat (replicate k [Exec (UpdateItem n d i), Timeout (retryDelay opts)]) @
             [Exec (UpdateItem n d i)]"
    unfolding upd_def k_def db_run_update_def
    by (simp only: retryOperation_db_call[OF update_item_not_busy] trace_after_retries)
  have e: "status (fst (router_delete opts req w)) = 404 \<longleftrightarrow> fst del = Inr 0"
    unfolding router_delete_def performDelete_retryOperation del_def i_def
    by (auto split: prod.splits sum.splits)
  have f: "snd (router_delete opts req w) = snd del"
    unfolding router_delete_def performDelete_retryOperation del_def i_def
    by (auto split: prod.splits sum.splits)
  have g: "trace (snd del) =
           trace w @ concat (replicate k [Exec (DeleteItem i), Timeout (retryDelay opts)]) @
             [Exec (DeleteItem i)]"
    unfolding del_def k_def db_run_delete_def
    by (simp only: retryOperation_db_call[OF delete_item_not_busy] trace_after_retries)
  have h: "status (fst (updateItem opts req w)) = 404 \<longleftrightarrow>
            (case retryOperation opts (dbRun (db_run_update n d i)) (maxRetries opts) w of
               (Inl err, w1) \<Rightarrow> False
             | (Inr u, w1) \<Rightarrow> fst (db_get_by_id i w1) = Inr None)"
    using name unfolding updateItem_def n_def d_def i_def
    by (auto simp: Let_def split: prod.splits sum.splits option.splits)
  have rows_affected: "\<forall>c. fst upd = Inr c \<or> fst del = Inr c \<longrightarrow>
              c = length (filter (\<lambda>x. item_id x = i) (rows (db w)))"
    unfolding upd_def del_def
    by (auto dest: retry_update_changes retry_delete_changes)
  show ?thesis
    by (intro conjI) (fact a b c e f g rows_affected h)+
qed

theorem not_found_decided_by_rows_affected_witness:
  "truthy (body_name (item_request 1 (Str ''a'') Null))
   \<and> status (fst (router_put no_options (item_request 1 (Str ''a'') Null) empty_world)) = 404
   \<and> fst (retryOperation no_options (db_run_update (Some ''a'') None 1) (maxRetries no_options)
            empty_world) = Inr 0
   \<and> trace (snd (router_put no_options (item_request 1 (Str ''a'') Null) empty_world)) =
       [Exec (UpdateItem (Some ''a'') None 1)]"
proof -
  have t: "truthy (body_name (item_request 1 (Str ''a'') Null))" by simp
  have f: "faults empty_world = []" by (simp add: empty_world_def)
  have z: "fst (retryOperation no_options (db_run_update (Some ''a'') None 1) (maxRetries no_options)
            empty_world) = Inr 0"
  proof -
    have "retryOperation no_options (db_run_update (Some ''a'') None 1) (maxRetries no_options)
            empty_world =
          db_call (UpdateItem (Some ''a'') None 1) (update_item (Some ''a'') None 1) empty_world"
      unfolding db_run_update_def
      by (rule retryOperation_nofault[OF update_item_not_busy f])
    then show ?thesis
      by (simp add: db_call_nofault[OF f] update_item_def) (simp add: empty_world_def)
  qed
  have k: "retried no_options (maxRetries no_options) (faults empty_world) = 0"
    by (simp add: retried_def f)
  from not_found_decided_by_rows_affected[OF t, of no_options empty_world] z k
  have "status (fst (router_put no_options (item_request 1 (Str ''a'') Null) empty_world)) = 404
    \<and> trace (snd (router_put no_options (item_request 1 (Str ''a'') Null) empty_world)) =
       [Exec (UpdateItem (Some ''a'') None 1)]"
    by (simp add: empty_world_def)
  with t z show ?thesis by simp
qed

section \<open>Schema creation\<close>

lemma createDatabase_nofault:
  "createDatabase \<lparr>database = f, pending = []\<rparr> =
     Inr \<lparr>database =
            \<lparr>tables = (if ''items'' \<in> set (map fst (tables f)) then tables f
                       else tables f @ [(''items'', items_columns)]),
             pragmas = (pragmas f)(''journal_mode'' \<mapsto> ''WAL'', ''synchronous'' \<mapsto> ''NORMAL'',
                          ''temp_store'' \<mapsto> ''MEMORY'', ''mmap_size'' \<mapsto> ''30000000000'')\<rparr>,
          pending = []\<rparr>"
  by (cases f) (simp add: createDatabase_def open_database_def runQuery_def set_pragma_def
      create_table_def)

lemma count_items_table:
  assumes "distinct (map fst ts)"
  shows "length (filter (\<lambda>t. fst t = k) ts) = (if k \<in> set (map fst ts) then 1 else 0)"
  using assms by (induction ts) (force simp: filter_empty_conv)+

text \<open>
  C9. On a database file whose tables have distinct names, and with a storage engine
  that raises nothing, \<^verbatim>\<open>createDatabase\<close> returns a handle, and run again on the file it
  left it returns a handle again and leaves the file exactly as the first run did: one
  table named \<^verbatim>\<open>items\<close>, with the columns it had after the first run (those of the
  \<^verbatim>\<open>CREATE TABLE\<close> when the first run created it).
\<close>

theorem createDatabase_idempotent:
  assumes "distinct (map fst (tables f))"
  shows "case createDatabase \<lparr>database = f, pending = []\<rparr> of
           Inl code \<Rightarrow> False
         | Inr st1 \<Rightarrow>
             createDatabase st1 = Inr st1
             \<and> length (filter (\<lambda>t. fst t = ''items'') (tables (database st1))) = 1
             \<and> tables (database st1) =
                 (if ''items'' \<in> set (map fst (tables f)) then tables f
                  else tables f @ [(''items'', items_columns)])"
proof -
  let ?st1 = "\<lparr>database =
            \<lparr>tables = (if ''items'' \<in> set (map fst (tables f)) then tables f
                       else tables f @ [(''items'', items_columns)]),
             pragmas = (pragmas f)(''journal_mode'' \<mapsto> ''WAL'', ''synchronous'' \<mapsto> ''NORMAL'',
                          ''temp_store'' \<mapsto> ''MEMORY'', ''mmap_size'' \<mapsto> ''30000000000'')\<rparr>,
          pending = []\<rparr>"
  have first: "createDatabase \<lparr>database = f, pending = []\<rparr> = Inr ?st1"
    by (rule createDatabase_nofault)
  have second: "createDatabase ?st1 = Inr ?st1"
    by (subst createDatabase_nofault) auto
  have "distinct (map fst (tables (database ?st1)))"
    using assms by auto
  then have one: "length (filter (\<lambda>t. fst t = ''items'') (tables (database ?st1))) = 1"
    by (subst count_items_table) auto
  show ?thesis
    unfolding first using second one by simp
qed

theorem createDatabase_idempotent_witness:
  "distinct (map fst (tables fresh_file))
   \<and> (case createDatabase \<lparr>database = fresh_file, pending = []\<rparr> of
         Inl code \<Rightarrow> False
       | Inr st1 \<Rightarrow>
           createDatabase st1 = Inr st1
           \<and> tables (database st1) = [(''items'', items_columns)])"
proof -
  have d: "distinct (map fst (tables fresh_file))" by (simp add: fresh_file_def)
  from createDatabase_idempotent[OF d] d show ?thesis
    by (auto simp: fresh_file_def split: sum.splits)
qed

section \<open>The two routers side by side\<close>

lemma store_ok_inserted: "store_ok s \<Longrightarrow> store_ok (inserted n d s)"
  by (auto simp: store_ok_def inserted_def sorted_wrt_append list_all_iff)

lemma store_ok_updated: "store_ok s \<Longrightarrow> store_ok (updated n d i s)"
proof -
  assume ok: "store_ok s"
  have "list_all (\<lambda>r. item_id r \<le> sqlite_sequence s) (rows (updated n d i s))"
    using ok by (auto simp: store_ok_def updated_def list_all_iff)
  with ok show ?thesis
    by (simp add: store_ok_def ids_updated sqlite_sequence_updated)
qed

lemma store_ok_deleted: "store_ok s \<Longrightarrow> store_ok (deleted i s)"
proof -
  assume ok: "store_ok s"
  have "map item_id (filter (\<lambda>r. item_id r \<noteq> i) (rows s)) =
        filter (\<lambda>x. x \<noteq> i) (map item_id (rows s))"
    by (simp add: filter_map comp_def)
  moreover have "sorted_wrt (<) (filter (\<lambda>x. x \<noteq> i) (map item_id (rows s)))"
    using ok by (intro sorted_wrt_filter) (simp add: store_ok_def)
  ultimately show ?thesis using ok
    by (simp add: store_ok_def deleted_def list_all_iff)
qed







section \<open>The shape of the table is kept\<close>

lemma db_call_keeps:
  assumes "P (db w)" "\<And>v s. sem (db w) = Inr (v, s) \<Longrightarrow> P s"
  shows "P (db (snd (db_call q sem w)))"
  using assms
  by (auto simp: db_call_def Let_def split: list.splits option.splits sum.splits)

lemma db_call_reading_keeps: "db (snd (db_call q (reading f) w)) = db w"
  by (auto simp: db_call_def reading_def Let_def split: list.splits option.splits)

lemma db_call_reading_keepsD: "db_call q (reading f) w = (res, w1) \<Longrightarrow> db w1 = db w"
  using db_call_reading_keeps[of q f w] by simp

lemma dbRun_keeps: "snd (dbRun run w) = snd (run w)"
  by (auto simp: dbRun_def split: prod.splits sum.splits)

lemma retryOperation_keeps:
  assumes "\<And>w. P (db w) \<Longrightarrow> P (db (snd (operation w)))" "P (db w)"
  shows "P (db (snd (retryOperation opts operation r w)))"
  using assms(2)
proof (induction r arbitrary: w)
  case 0
  with assms(1)[of w] show ?case
    by (subst retryOperation.simps) (auto split: prod.splits sum.splits)
next
  case (Suc r)
  obtain res w1 where op: "operation w = (res, w1)" by (cases "operation w")
  with assms(1)[of w] Suc.prems have w1: "P (db w1)" by simp
  then have "P (db (setTimeout (retryDelay opts) w1))" by (simp add: setTimeout_def)
  from Suc.IH[OF this] w1 op show ?case
    by (subst retryOperation.simps) (auto split: sum.splits)
qed

lemma insert_item_keeps: "store_ok s \<Longrightarrow> insert_item n d s = Inr (v, s') \<Longrightarrow> store_ok s'"
  using store_ok_inserted[of s]
  by (auto simp: insert_item_def inserted_def Let_def split: option.splits)

lemma update_item_keeps: "store_ok s \<Longrightarrow> update_item n d i s = Inr (v, s') \<Longrightarrow> store_ok s'"
  using store_ok_updated[of s]
  by (auto simp: update_item_def updated_def Let_def split: option.splits if_splits)

lemma delete_item_keeps: "store_ok s \<Longrightarrow> delete_item i s = Inr (v, s') \<Longrightarrow> store_ok s'"
  using store_ok_deleted[of s i]
  by (auto simp: delete_item_def deleted_def)

lemma run_insert_keeps:
  "store_ok (db w) \<Longrightarrow> store_ok (db (snd (retryOperation opts (db_run_insert n d) r w)))"
  unfolding db_run_insert_def
  by (rule retryOperation_keeps[where P = store_ok]) (auto intro: db_call_keeps insert_item_keeps)

lemma run_update_keeps:
  "store_ok (db w) \<Longrightarrow> store_ok (db (snd (retryOperation opts (db_run_update n d i) r w)))"
  unfolding db_run_update_def
  by (rule retryOperation_keeps[where P = store_ok]) (auto intro: db_call_keeps update_item_keeps)

lemma run_delete_keeps:
  "store_ok (db w) \<Longrightarrow> store_ok (db (snd (retryOperation opts (db_run_delete i) r w)))"
  unfolding db_run_delete_def
  by (rule retryOperation_keeps[where P = store_ok]) (auto intro: db_call_keeps delete_item_keeps)

lemma dbRun_retry_keeps:
  assumes "\<And>w. store_ok (db w) \<Longrightarrow> store_ok (db (snd (run w)))" "store_ok (db w)"
  shows "store_ok (db (snd (retryOperation opts (dbRun run) r w)))"
  by (rule retryOperation_keeps[where P = store_ok]) (simp_all add: dbRun_keeps assms)

lemma get_by_id_keeps: "db (snd (db_get_by_id i w)) = db w"
  by (simp add: db_get_by_id_def db_call_reading_keeps)

lemma get_by_id_keepsD: "db_get_by_id i w = (res, w1) \<Longrightarrow> db w1 = db w"
  using get_by_id_keeps[of i w] by simp

lemma callback_router_keeps_store_ok:
  assumes "store_ok (db w)"
  shows "store_ok (db (snd (itemsRouter_callback opts r w)))"
proof -
  obtain rt req where r: "r = (rt, req)" by (cases r)
  show ?thesis
  proof (cases rt)
    case GET_all
    have "db (snd (router_get_all req w)) = db w"
      by (auto simp: router_get_all_def db_all_page_def db_get_count_def Let_def
          split: prod.splits sum.splits dest!: db_call_reading_keepsD)
    with r GET_all assms show ?thesis by simp
  next
    case GET_id
    have "db (snd (router_get_id req w)) = db w"
      by (auto simp: router_get_id_def split: prod.splits sum.splits option.splits
          dest!: get_by_id_keepsD)
    with r GET_id assms show ?thesis by simp
  next
    case POST
    have "store_ok (db (snd (performInsert opts n d k w)))" for n d k
      using run_insert_keeps[OF assms, of opts "bind_param n" "bind_param d" k]
      by (auto simp: performInsert_retryOperation split: prod.splits sum.splits
          dest!: get_by_id_keepsD)
    with r POST assms show ?thesis by (simp add: router_post_def Let_def)
  next
    case PUT_id
    have "store_ok (db (snd (performUpdate opts n d i k w)))" for n d i k
      using run_update_keeps[OF assms, of opts "bind_param n" "bind_param d" i k]
      by (auto simp: performUpdate_retryOperation split: prod.splits sum.splits
          dest!: get_by_id_keepsD)
    with r PUT_id assms show ?thesis by (simp add: router_put_def Let_def)
  next
    case DELETE_id
    have "store_ok (db (snd (performDelete opts i k w)))" for i k
      using run_delete_keeps[OF assms, of opts i k]
      by (auto simp: performDelete_retryOperation split: prod.splits sum.splits)
    with r DELETE_id assms show ?thesis by (simp add: router_delete_def)
  qed
qed

lemma promise_router_keeps_store_ok:
  assumes "store_ok (db w)"
  shows "store_ok (db (snd (itemsRouter_promise opts r w)))"
proof -
  obtain rt req where r: "r = (rt, req)" by (cases r)
  show ?thesis
  proof (cases rt)
    case GET_all
    with r assms callback_router_keeps_store_ok[OF assms, of opts "(GET_all, req)"]
    show ?thesis by (simp add: router_get_all_eq)
  next
    case GET_id
    with r assms callback_router_keeps_store_ok[OF assms, of opts "(GET_id, req)"]
    show ?thesis by (simp add: router_get_id_eq)
  next
    case POST
    have "store_ok (db (snd (retryOperation opts (dbRun (db_run_insert n d)) k w)))" for n d k
      unfolding db_run_insert_def
      by (rule dbRun_retry_keeps[OF _ assms]) (auto intro: db_call_keeps insert_item_keeps)
    from this[of "bind_param (body_name req)" "bind_param (body_description req)" "maxRetries opts"]
      r POST assms show ?thesis
      by (auto simp: createNewItem_def db_get_by_name_description_def Let_def
          split: prod.splits sum.splits dest!: db_call_reading_keepsD)
  next
    case PUT_id
    have "store_ok (db (snd (retryOperation opts (dbRun (db_run_update n d i)) k w)))" for n d i k
      unfolding db_run_update_def
      by (rule dbRun_retry_keeps[OF _ assms]) (auto intro: db_call_keeps update_item_keeps)
    from this[of "bind_param (body_name req)" "bind_param (body_description req)" "params_id req"
        "maxRetries opts"]
      r PUT_id assms show ?thesis
      by (auto simp: updateItem_def Let_def
          split: prod.splits sum.splits option.splits dest!: get_by_id_keepsD)
  next
    case DELETE_id
    have "store_ok (db (snd (retryOperation opts (dbRun (db_run_delete i)) k w)))" for i k
      unfolding db_run_delete_def
      by (rule dbRun_retry_keeps[OF _ assms]) (auto intro: db_call_keeps delete_item_keeps)
    from this[of "params_id req" "maxRetries opts"]
      r DELETE_id assms show ?thesis
      by (auto simp: deleteItem_def
          split: prod.splits sum.splits option.splits dest!: get_by_id_keepsD)
  qed
qed

lemma serve_keeps_store_ok:
  assumes "\<And>r w. store_ok (db w) \<Longrightarrow> store_ok (db (snd (handler r w)))" "store_ok (db w)"
  shows "store_ok (db (snd (serve handler rs w)))"
  using assms(2)
proof (induction rs arbitrary: w)
  case Nil
  then show ?case by simp
next
  case (Cons r rs)
  from assms(1)[OF Cons.prems, of r] have "store_ok (db (snd (handler r w)))" .
  from Cons.IH[OF this] show ?case by (simp add: split_beta)
qed

lemma store_ok_empty: "store_ok (db empty_world)"
  by (simp add: store_ok_def empty_world_def)

end
